theory Spec2Isabelle
  imports Main "HOL-Library.Word" "HOL-Library.Signed_Division"
begin

section \<open>The Android bootstrap of the AdMob test application\<close>

text \<open>
  A shallow embedding of \<^verbatim>\<open>admob/testapp/src/android/android_main.cc\<close> and of the
  waiting helper and the one-time initialisation of
  \<^verbatim>\<open>admob/testapp/src/common_main.cc\<close>.

  The file-scope variables of the two translation units form one record of globals, and
  every function takes the globals and returns them updated.  Calls that leave the
  program (the looper, \<^verbatim>\<open>usleep\<close>, the Android log, JNI, the native activity, the
  pthread condition variable, the Firebase SDK) are appended to a trace, in program
  order, with the arguments the code passes.  What such a call answers is an argument of
  the function that makes the call, so every theorem holds for every answer.

  Assertions are modelled as compiled in (the sources do not define
  \<^verbatim>\<open>NDEBUG\<close>): a failed \<^verbatim>\<open>assert\<close> ends the execution.  A null pointer that is
  dereferenced ends it as well.

  Each function is modelled as it runs on its own thread.  What another thread writes
  while a call is under way appears in two places: in the wait for the early
  initialisation, whose purpose is to see such a write, and in the system of threads that
  closes the definitions, where the statements of \<^verbatim>\<open>android_main\<close> that guard its
  re-entry are interleaved one by one.  Where calls of different threads follow one
  another, the globals that one call leaves are the globals of the next.

  The constants \<^verbatim>\<open>APP_CMD_DESTROY\<close>, \<^verbatim>\<open>JNI_OK\<close> and \<^verbatim>\<open>kAdMobErrorNone\<close> have the
  values that the headers of the NDK, of JNI and of the SDK give them; only the examples
  at concrete inputs depend on the numbers.
\<close>

subsection \<open>Platform types\<close>

type_synonym pthread_t = nat
type_synonym jobject = nat
type_synonym jclass = nat
type_synonym jmethodID = nat
type_synonym JNIEnv = nat
type_synonym jthrowable = string
type_synonym pthread_mutex_t = "pthread_t option"

text \<open>
  Handles are numbers and \<open>0\<close> is the null pointer.  A mutex holds its owner.  A
  \<^verbatim>\<open>jthrowable\<close> is represented by the text its \<^verbatim>\<open>toString()\<close> gives.
  The members of \<^verbatim>\<open>LoggingUtilsData\<close> are written without the underscore that ends
  their names in the source.  \<open>jni_pending\<close> is the exception pending in the JNI
  environment of the main thread; it belongs to the managed runtime.
\<close>

text \<open>
  \<^verbatim>\<open>struct android_poll_source\<close> belongs to the native application glue of the NDK.
  Its \<^verbatim>\<open>process\<close> callback reads the pending commands and hands each one to the
  \<^verbatim>\<open>onAppCmd\<close> callback of the application; a source is represented by these commands
  (none for an input source).
\<close>

datatype android_poll_source = Poll_source (cmds: "32 word list")

record JavaVM_reply =
  attach_result :: "32 word"
  attach_env :: JNIEnv

record ANativeActivity =
  clazz :: jobject

record android_app =
  activity :: ANativeActivity
  onAppCmd :: bool

text \<open>
  \<open>onAppCmd\<close> tells whether the callback slot of the application holds
  \<^verbatim>\<open>OnAppCmd\<close>, the only function this program ever stores there.
\<close>

record timespec =
  tv_sec :: int
  tv_nsec :: int

datatype log_arg = Arg_int "32 word" | Arg_str string

text \<open>The request descriptor and the banner size of the AdMob SDK, as the program fills them.\<close>

datatype Gender = kGenderUnknown | kGenderMale | kGenderFemale

datatype ChildDirectedTreatmentState =
    kChildDirectedTreatmentStateUnknown
  | kChildDirectedTreatmentStateTagged
  | kChildDirectedTreatmentStateNotTagged

record AdRequest =
  gender :: Gender
  tagged_for_child_directed_treatment :: ChildDirectedTreatmentState
  birthday_day :: int
  birthday_month :: int
  birthday_year :: int
  keyword_count :: nat
  request_keywords :: "string list"
  extras_count :: nat
  extras :: "(string \<times> string) list"
  test_device_id_count :: nat
  test_device_ids :: "string list"

datatype AdSizeType = kAdSizeStandard

record AdSize =
  ad_size_type :: AdSizeType
  width :: int
  height :: int

datatype effect =
    Usleep "32 word"
  | ALooper_pollAll "32 word"
  | Source_process android_poll_source
  | Android_log string "log_arg list"
  | Add_log_text jclass jmethodID string "log_arg list"
  | Attach_current_thread
  | Detach_current_thread
  | Exception_clear
  | Delete_global_ref jclass
  | ANativeActivity_finish ANativeActivity
  | Cond_timedwait timespec
  | Cond_signal
  | App_create JNIEnv jobject
  | Admob_initialize nat
  | Banner_view_new nat
  | Banner_set_listener
  | Banner_initialize jobject string AdSize
  | Banner_show
  | Banner_load_ad AdRequest

record LoggingUtilsData =
  logging_utils_class :: jclass
  logging_utils_add_log_text :: jmethodID
  logging_utils_init_log_window :: jmethodID

record globals =
  g_app_state :: "android_app option"
  g_destroy_requested :: bool
  g_started :: bool
  g_restarted :: bool
  g_started_mutex :: pthread_mutex_t
  g_jni_env :: JNIEnv
  g_activity :: jobject
  g_init_mutex :: pthread_mutex_t
  g_main_thread :: pthread_t
  g_initialized :: bool
  g_logging_utils_data :: "LoggingUtilsData option"
  g_app :: nat
  g_banner :: nat
  g_request :: AdRequest
  jni_pending :: "jthrowable option"
  trace :: "effect list"

definition emit :: "effect \<Rightarrow> globals \<Rightarrow> globals" where
  "emit e s = s\<lparr>trace := trace s @ [e]\<rparr>"

subsection \<open>The event pump\<close>

definition APP_CMD_DESTROY :: "32 word" where
  "APP_CMD_DESTROY = 15"

definition OnAppCmd :: "32 word \<Rightarrow> globals \<Rightarrow> globals" where
  "OnAppCmd cmd s = s\<lparr>g_destroy_requested := (g_destroy_requested s \<or> cmd = APP_CMD_DESTROY)\<rparr>"

definition source_process :: "android_poll_source \<Rightarrow> globals \<Rightarrow> globals" where
  "source_process source s =
     (let s1 = emit (Source_process source) s in
      case g_app_state s1 of
        None \<Rightarrow> s1
      | Some app \<Rightarrow> if onAppCmd app then fold OnAppCmd (cmds source) s1 else s1)"

record poll_result =
  looperId :: "32 word"
  outData :: "android_poll_source option"

definition ProcessEvents :: "pthread_t \<Rightarrow> 32 word \<Rightarrow> poll_result \<Rightarrow> globals \<Rightarrow> bool \<times> globals" where
  "ProcessEvents self msec poll s =
     (if g_main_thread s \<noteq> self then
        (let s1 = emit (Usleep (1000 * msec)) s
         in (g_destroy_requested s1 \<or> g_restarted s1, s1))
      else
        (let s1 = emit (ALooper_pollAll msec) s;
             s2 = (case outData poll of
                     None \<Rightarrow> s1
                   | Some source \<Rightarrow>
                       if 0 \<le> sint (looperId poll) then source_process source s1 else s1)
         in (g_destroy_requested s2 \<or> g_restarted s2, s2)))"

subsection \<open>Handles of the activity and of the managed runtime\<close>

datatype fault = Assert_failed | Null_dereference

text \<open>
  A call either returns or ends the execution with a fault; the globals at the fault keep
  the trace of what was done before it.
\<close>

datatype 'a outcome = Return 'a | Abort fault globals

definition and_then :: "'a outcome \<Rightarrow> ('a \<Rightarrow> 'b outcome) \<Rightarrow> 'b outcome" where
  "and_then m f = (case m of Return x \<Rightarrow> f x | Abort e s \<Rightarrow> Abort e s)"

definition GetActivity :: "pthread_t \<Rightarrow> globals \<Rightarrow> jobject outcome" where
  "GetActivity self s =
     (if g_main_thread s \<noteq> self then Return (g_activity s)
      else case g_app_state s of
             None \<Rightarrow> Abort Null_dereference s
           | Some app \<Rightarrow> Return (clazz (activity app)))"

definition GetWindowContext :: "pthread_t \<Rightarrow> globals \<Rightarrow> jobject outcome" where
  "GetWindowContext self s = GetActivity self s"

definition JNI_OK :: "32 word" where
  "JNI_OK = 0"

text \<open>
  \<open>vm\<close> is what \<^verbatim>\<open>AttachCurrentThread\<close> answers: its result code and the environment
  it stores.
\<close>

definition GetJniEnv :: "pthread_t \<Rightarrow> 'a JavaVM_reply_scheme \<Rightarrow> globals \<Rightarrow> (JNIEnv \<times> globals) outcome" where
  "GetJniEnv self vm s =
     (if g_main_thread s \<noteq> self then Return (g_jni_env s, s)
      else case g_app_state s of
             None \<Rightarrow> Abort Null_dereference s
           | Some app \<Rightarrow>
               Return (if attach_result vm = JNI_OK then attach_env vm else 0,
                       emit Attach_current_thread s))"

subsection \<open>The logging sink\<close>

text \<open>
  \<open>thrown\<close> is the exception the Java method \<^verbatim>\<open>addLogText\<close> raises, if it raises
  one.  The text handed to \<^verbatim>\<open>addLogText\<close> is the line buffer that
  \<^verbatim>\<open>vsnprintf\<close> fills from the format and its arguments (at most 99 characters, and a
  line break when fewer than 100 were produced); the trace records the format and the
  arguments.
\<close>

record jni_reply = JavaVM_reply +
  thrown :: "jthrowable option"

definition AppendText ::
  "pthread_t \<Rightarrow> LoggingUtilsData \<Rightarrow> string \<Rightarrow> log_arg list \<Rightarrow> jni_reply \<Rightarrow> globals \<Rightarrow> globals outcome" where
  "AppendText self this fmt args jni s =
     (if logging_utils_class this = 0 then Return s
      else and_then (GetJniEnv self jni s) (\<lambda>(env, s1).
        if env = 0 then Abort Assert_failed s1
        else Return
          ((emit (Add_log_text (logging_utils_class this) (logging_utils_add_log_text this) fmt args) s1)
             \<lparr>jni_pending := (case jni_pending s1 of Some e \<Rightarrow> Some e | None \<Rightarrow> thrown jni)\<rparr>)))"

definition CheckJNIException :: "pthread_t \<Rightarrow> jni_reply \<Rightarrow> globals \<Rightarrow> globals outcome" where
  "CheckJNIException self jni s =
     and_then (GetJniEnv self jni s) (\<lambda>(env, s1).
       if env = 0 then Abort Null_dereference s1
       else case jni_pending s1 of
              None \<Rightarrow> Return s1
            | Some exception \<Rightarrow>
                Abort Assert_failed
                  (emit (Android_log ''-------------------'' [])
                    (emit (Android_log ''%s'' [Arg_str exception])
                      (emit (Android_log ''-------------------JNI exception:'' [])
                        (emit Exception_clear (s1\<lparr>jni_pending := None\<rparr>))))))"

definition LogMessage ::
  "pthread_t \<Rightarrow> string \<Rightarrow> log_arg list \<Rightarrow> jni_reply \<Rightarrow> globals \<Rightarrow> globals outcome" where
  "LogMessage self fmt args jni s =
     (let s1 = emit (Android_log fmt args) s in
      if g_main_thread s1 = self then
        (case g_logging_utils_data s1 of
           None \<Rightarrow> Return s1
         | Some this \<Rightarrow>
             and_then (AppendText self this fmt args jni s1) (CheckJNIException self jni))
      else Return s1)"

subsection \<open>Waiting for a future\<close>

datatype FutureStatus = kFutureStatusComplete | kFutureStatusPending | kFutureStatusInvalid

record FutureBase =
  Error :: "32 word"
  ErrorMessage :: string

definition kAdMobErrorNone :: "32 word" where
  "kAdMobErrorNone = 0"

text \<open>
  One round of the loop of \<^verbatim>\<open>WaitForFutureCompletion\<close>: what the looper answers to
  \<^verbatim>\<open>ProcessEvents(1000)\<close> and what \<^verbatim>\<open>future.Status()\<close> answers after it.  The loop
  runs over a list of rounds; \<open>None\<close> means that it is still running after the last one.
\<close>

record wait_tick =
  tick_poll :: poll_result
  tick_status :: FutureStatus

fun WaitForFutureCompletion_loop :: "pthread_t \<Rightarrow> wait_tick list \<Rightarrow> globals \<Rightarrow> globals option" where
  "WaitForFutureCompletion_loop self [] s = None"
| "WaitForFutureCompletion_loop self (t # ts) s =
     (case ProcessEvents self 1000 (tick_poll t) s of
        (exit, s1) \<Rightarrow>
          if exit then Some s1
          else if tick_status t \<noteq> kFutureStatusPending then Some s1
          else WaitForFutureCompletion_loop self ts s1)"

definition WaitForFutureCompletion ::
  "pthread_t \<Rightarrow> FutureBase \<Rightarrow> wait_tick list \<Rightarrow> jni_reply \<Rightarrow> globals \<Rightarrow> globals outcome option" where
  "WaitForFutureCompletion self future ticks jni s =
     (case WaitForFutureCompletion_loop self ticks s of
        None \<Rightarrow> None
      | Some s1 \<Rightarrow>
          Some (if Error future \<noteq> kAdMobErrorNone then
                  LogMessage self ''Action failed with error code %d and message \"%s\".''
                    [Arg_int (Error future), Arg_str (ErrorMessage future)] jni s1
                else Return s1))"

subsection \<open>One-time initialisation and the early-init entry point\<close>

definition and_then_wait ::
  "'a outcome option \<Rightarrow> ('a \<Rightarrow> 'b outcome option) \<Rightarrow> 'b outcome option" where
  "and_then_wait m f =
     (case m of
        None \<Rightarrow> None
      | Some (Abort e s) \<Rightarrow> Some (Abort e s)
      | Some (Return x) \<Rightarrow> f x)"

definition kBannerAdUnit :: string where
  "kBannerAdUnit = ''ca-app-pub-3940256099942544/6300978111''"

definition kBannerWidth :: int where
  "kBannerWidth = 320"

definition kBannerHeight :: int where
  "kBannerHeight = 50"

definition kKeywords :: "string list" where
  "kKeywords = [''AdMob'', ''C++'', ''Fun'']"

definition kTestDeviceIDs :: "string list" where
  "kTestDeviceIDs = [''2077ef9a63d2b398840261c8221a0c9b'', ''098fe087d987c9a878965454a65654d7'']"

definition kBirthdayDay :: int where
  "kBirthdayDay = 10"

definition kBirthdayMonth :: int where
  "kBirthdayMonth = 11"

definition kBirthdayYear :: int where
  "kBirthdayYear = 1976"

definition kRequestExtras :: "(string \<times> string) list" where
  "kRequestExtras = [(''the_name_of_an_extra'', ''the_value_for_that_extra'')]"

text \<open>What the SDK and the managed runtime answer during one wait for a future.\<close>

record future_reply =
  future :: FutureBase
  ticks :: "wait_tick list"
  failed_jni :: jni_reply

text \<open>
  What the SDK and the managed runtime answer during one run of the body of
  \<^verbatim>\<open>InitializeFirebase\<close>: the pointers \<^verbatim>\<open>App::Create\<close> and \<^verbatim>\<open>new BannerView\<close>
  give, the futures of \<^verbatim>\<open>Initialize\<close> and \<^verbatim>\<open>Show\<close>, and the JNI answers to each
  log line.
\<close>

record firebase_reply =
  create_vm :: JavaVM_reply
  created_app :: nat
  created_banner :: nat
  jni_created :: jni_reply
  jni_initializing :: jni_reply
  jni_creating :: jni_reply
  initialize_result :: future_reply
  jni_showing :: jni_reply
  show_result :: future_reply
  jni_loading :: jni_reply

definition fill_request :: "AdRequest \<Rightarrow> AdRequest" where
  "fill_request r =
     r\<lparr>gender := kGenderUnknown,
       tagged_for_child_directed_treatment := kChildDirectedTreatmentStateTagged,
       birthday_day := kBirthdayDay,
       birthday_month := kBirthdayMonth,
       birthday_year := kBirthdayYear,
       keyword_count := length kKeywords,
       request_keywords := kKeywords,
       extras_count := length kRequestExtras,
       extras := kRequestExtras,
       test_device_id_count := length kTestDeviceIDs,
       test_device_ids := kTestDeviceIDs\<rparr>"

definition InitializeFirebase :: "pthread_t \<Rightarrow> firebase_reply \<Rightarrow> globals \<Rightarrow> globals outcome option" where
  "InitializeFirebase self fb s =
     (if g_app s \<noteq> 0 then Some (Return s)
      else
        and_then_wait (Some (GetJniEnv self (create_vm fb) s)) (\<lambda>(env, s1).
        and_then_wait (Some (GetActivity self s1)) (\<lambda>act.
        and_then_wait (Some (LogMessage self ''Created the Firebase App %x.''
            [Arg_int (of_nat (created_app fb))] (jni_created fb)
            ((emit (App_create env act) s1)\<lparr>g_app := created_app fb\<rparr>))) (\<lambda>s2.
        and_then_wait (Some (LogMessage self ''Initializing the AdMob with Firebase API.'' []
            (jni_initializing fb) s2)) (\<lambda>s3.
        if g_app s3 = 0 then Some (Abort Null_dereference s3)
        else
        and_then_wait (Some (LogMessage self ''Creating the BannerView.'' [] (jni_creating fb)
            ((emit (Admob_initialize (g_app s3)) s3)\<lparr>g_request := fill_request (g_request s3)\<rparr>))) (\<lambda>s4.
        let s5 = emit Banner_set_listener
                   ((emit (Banner_view_new (created_banner fb)) s4)\<lparr>g_banner := created_banner fb\<rparr>)
        in
        and_then_wait (Some (GetWindowContext self s5)) (\<lambda>context.
        and_then_wait (WaitForFutureCompletion self (future (initialize_result fb))
            (ticks (initialize_result fb)) (failed_jni (initialize_result fb))
            (emit (Banner_initialize context kBannerAdUnit
                     \<lparr>ad_size_type = kAdSizeStandard, width = kBannerWidth, height = kBannerHeight\<rparr>)
               s5)) (\<lambda>s6.
        and_then_wait (Some (LogMessage self ''Showing the banner ad.'' [] (jni_showing fb) s6)) (\<lambda>s7.
        and_then_wait (WaitForFutureCompletion self (future (show_result fb))
            (ticks (show_result fb)) (failed_jni (show_result fb)) (emit Banner_show s7)) (\<lambda>s8.
        and_then_wait (Some (LogMessage self ''Loading a banner ad.'' [] (jni_loading fb) s8)) (\<lambda>s9.
        Some (Return (emit (Banner_load_ad (g_request s9)) s9)))))))))))))"

text \<open>
  \<^verbatim>\<open>Java_com_google_firebase_example_TestappNativeActivity_nativeInit\<close>, the early-init
  entry point.  \<^verbatim>\<open>pthread_mutex_lock\<close> does not return while another thread holds the
  mutex: the call is then still running (\<open>None\<close>).
\<close>

record early_init_reply =
  jni_called :: jni_reply
  firebase :: firebase_reply
  jni_complete :: jni_reply

definition nativeInit ::
  "pthread_t \<Rightarrow> JNIEnv \<Rightarrow> jobject \<Rightarrow> early_init_reply \<Rightarrow> globals \<Rightarrow> globals outcome option" where
  "nativeInit self env activity_object r s =
     and_then_wait (Some (LogMessage self ''Early init called.'' [] (jni_called r) s)) (\<lambda>s1.
     and_then_wait (InitializeFirebase self (firebase r)
         (s1\<lparr>g_jni_env := env, g_activity := activity_object\<rparr>)) (\<lambda>s2.
     case g_init_mutex s2 of
       Some owner \<Rightarrow> None
     | None \<Rightarrow>
         let s3 = s2\<lparr>g_init_mutex := Some self\<rparr>;
             s4 = s3\<lparr>g_initialized := True\<rparr>;
             s5 = s4\<lparr>g_init_mutex := None\<rparr>;
             s6 = s5\<lparr>g_jni_env := 0, g_activity := 0\<rparr>
         in and_then_wait (Some (LogMessage self ''Early init complete'' [] (jni_complete r) s6))
              (\<lambda>s7. Some (Return (emit Cond_signal s7)))))"

text \<open>A sequence of calls of the entry point, each with its arguments and answers.\<close>

fun nativeInit_calls ::
  "pthread_t \<Rightarrow> (JNIEnv \<times> jobject \<times> early_init_reply) list \<Rightarrow> globals \<Rightarrow> globals outcome option" where
  "nativeInit_calls self [] s = Some (Return s)"
| "nativeInit_calls self ((env, activity_object, r) # calls) s =
     and_then_wait (nativeInit self env activity_object r s) (nativeInit_calls self calls)"

subsection \<open>The session of \<^verbatim>\<open>android_main\<close>\<close>

text \<open>
  Lines 301 to 305, which follow the test of line 293 and its branches: the thread locks
  \<^verbatim>\<open>g_started_mutex\<close> (the call does not return while the mutex is locked, \<open>None\<close>),
  becomes the main thread and sets \<^verbatim>\<open>g_started\<close>.
\<close>

definition android_main_lock_started :: "pthread_t \<Rightarrow> globals \<Rightarrow> globals option" where
  "android_main_lock_started self s =
     (case g_started_mutex s of
        Some owner \<Rightarrow> None
      | None \<Rightarrow> Some (s\<lparr>g_started_mutex := Some self, g_main_thread := self, g_started := True\<rparr>))"

text \<open>Lines 308 to 310: the state of the glue is saved and the command observer installed.\<close>

definition android_main_save_state :: "android_app \<Rightarrow> globals \<Rightarrow> globals" where
  "android_main_save_state state s =
     s\<lparr>g_destroy_requested := False, g_app_state := Some (state\<lparr>onAppCmd := True\<rparr>)\<rparr>"

text \<open>
  Lines 312 to 320 create the log view and write a log line.  They are calls of JNI and of
  the logging sink; of the globals they write \<^verbatim>\<open>g_logging_utils_data\<close> (line 316), and
  the calls add to the trace and may leave an exception pending in the runtime.  The
  relation holds between the globals before and after these lines.
\<close>

definition log_display_up :: "globals \<Rightarrow> globals \<Rightarrow> bool" where
  "log_display_up s s' \<longleftrightarrow>
     g_app_state s' = g_app_state s \<and> g_destroy_requested s' = g_destroy_requested s \<and>
     g_started s' = g_started s \<and> g_restarted s' = g_restarted s \<and>
     g_started_mutex s' = g_started_mutex s \<and> g_jni_env s' = g_jni_env s \<and>
     g_activity s' = g_activity s \<and> g_init_mutex s' = g_init_mutex s \<and>
     g_main_thread s' = g_main_thread s \<and> g_initialized s' = g_initialized s \<and>
     g_app s' = g_app s \<and> g_banner s' = g_banner s \<and> g_request s' = g_request s"

definition nsec_per_sec :: int where
  "nsec_per_sec = 1000000000"

definition nsec_per_ms :: int where
  "nsec_per_ms = nsec_per_sec sdiv 1000"

definition time_to_wait_for :: "timespec \<Rightarrow> timespec" where
  "time_to_wait_for now =
     (let nsec = tv_nsec now + nsec_per_ms * 10
      in \<lparr>tv_sec = tv_sec now + nsec sdiv nsec_per_sec, tv_nsec = nsec smod nsec_per_sec\<rparr>)"

text \<open>
  One round of the loop that waits for \<^verbatim>\<open>nativeInit\<close> (lines 325 to 338): what the
  looper answers to \<^verbatim>\<open>ProcessEvents(10)\<close>, what \<^verbatim>\<open>clock_gettime\<close> reads, and whether
  \<^verbatim>\<open>nativeInit\<close> sets \<^verbatim>\<open>g_initialized\<close> on its own thread while this thread is in
  \<^verbatim>\<open>pthread_cond_timedwait\<close>, which gives up \<^verbatim>\<open>g_init_mutex\<close> for that time.
\<close>

record init_tick =
  init_poll :: poll_result
  init_clock :: timespec
  early_init :: bool

fun android_main_wait_loop :: "pthread_t \<Rightarrow> init_tick list \<Rightarrow> globals \<Rightarrow> globals option" where
  "android_main_wait_loop self [] s = (if g_initialized s then Some s else None)"
| "android_main_wait_loop self (t # ts) s =
     (if g_initialized s then Some s
      else case ProcessEvents self 10 (init_poll t) s of
        (exit, s1) \<Rightarrow>
          if exit then Some s1
          else android_main_wait_loop self ts
                 ((emit (Cond_timedwait (time_to_wait_for (init_clock t))) s1)
                    \<lparr>g_initialized := (g_initialized s1 \<or> early_init t)\<rparr>))"

definition android_main_wait :: "pthread_t \<Rightarrow> init_tick list \<Rightarrow> globals \<Rightarrow> globals option" where
  "android_main_wait self rounds s =
     (case g_init_mutex s of
        Some owner \<Rightarrow> None
      | None \<Rightarrow>
          (case android_main_wait_loop self rounds (s\<lparr>g_init_mutex := Some self\<rparr>) of
             None \<Rightarrow> None
           | Some s1 \<Rightarrow> Some (s1\<lparr>g_init_mutex := None\<rparr>)))"

text \<open>The destructor of \<^verbatim>\<open>LoggingUtilsData\<close>.\<close>

definition LoggingUtilsData_destructor ::
  "pthread_t \<Rightarrow> LoggingUtilsData \<Rightarrow> JavaVM_reply \<Rightarrow> globals \<Rightarrow> globals outcome" where
  "LoggingUtilsData_destructor self this vm s =
     and_then (GetJniEnv self vm s) (\<lambda>(env, s1).
       if env = 0 then Abort Assert_failed s1
       else Return (if logging_utils_class this \<noteq> 0
                    then emit (Delete_global_ref (logging_utils_class this)) s1 else s1))"

text \<open>
  Lines 363 to 379, after \<^verbatim>\<open>common_main\<close> has returned.  \<open>state\<close> is the argument of
  \<^verbatim>\<open>android_main\<close>, \<open>poll\<close> what the looper answers to the last
  \<^verbatim>\<open>ProcessEvents(10)\<close>.
\<close>

definition android_main_finish ::
  "pthread_t \<Rightarrow> android_app \<Rightarrow> poll_result \<Rightarrow> JavaVM_reply \<Rightarrow> globals \<Rightarrow> globals outcome" where
  "android_main_finish self state poll vm s =
     (case ProcessEvents self 10 poll s of
        (exit, s1) \<Rightarrow>
          and_then
            (case g_logging_utils_data s1 of
               None \<Rightarrow> Return s1
             | Some this \<Rightarrow> LoggingUtilsData_destructor self this vm s1)
            (\<lambda>s2.
               let s3 = s2\<lparr>g_logging_utils_data := None, g_initialized := False\<rparr>;
                   s4 = (if \<not> g_restarted s3
                         then emit (ANativeActivity_finish (activity state)) s3 else s3)
               in case g_app_state s4 of
                    None \<Rightarrow> Abort Null_dereference s4
                  | Some app \<Rightarrow>
                      Return ((emit Detach_current_thread s4)
                        \<lparr>g_started := False, g_restarted := False, g_started_mutex := None\<rparr>)))"

subsection \<open>Vocabulary of the properties\<close>

text \<open>The globals as their initialisers leave them when the process starts.\<close>

definition process_start :: globals where
  "process_start =
     \<lparr>g_app_state = None, g_destroy_requested = False, g_started = False, g_restarted = False,
      g_started_mutex = None, g_jni_env = 0, g_activity = 0, g_init_mutex = None,
      g_main_thread = 0, g_initialized = False, g_logging_utils_data = None,
      g_app = 0, g_banner = 0,
      g_request = \<lparr>gender = kGenderUnknown,
        tagged_for_child_directed_treatment = kChildDirectedTreatmentStateUnknown,
        birthday_day = 0, birthday_month = 0, birthday_year = 0, keyword_count = 0,
        request_keywords = [], extras_count = 0, extras = [], test_device_id_count = 0,
        test_device_ids = []\<rparr>,
      jni_pending = None, trace = []\<rparr>"

text \<open>
  Successive calls of \<^verbatim>\<open>ProcessEvents\<close>, each with its calling thread, its timeout and
  the answer of the looper; the results are collected in order.
\<close>

fun ProcessEvents_calls ::
  "(pthread_t \<times> 32 word \<times> poll_result) list \<Rightarrow> globals \<Rightarrow> bool list \<times> globals" where
  "ProcessEvents_calls [] s = ([], s)"
| "ProcessEvents_calls ((self, msec, poll) # calls) s =
     (case ProcessEvents self msec poll s of
        (r, s1) \<Rightarrow> (case ProcessEvents_calls calls s1 of (rs, s2) \<Rightarrow> (r # rs, s2)))"




text \<open>
  The number of calls of \<^verbatim>\<open>firebase::App::Create\<close> and of \<^verbatim>\<open>pthread_cond_signal\<close>
  in a trace, and the relation between the globals before and after a step that makes
  neither call and leaves \<^verbatim>\<open>g_app\<close>, \<^verbatim>\<open>g_initialized\<close>, \<^verbatim>\<open>g_init_mutex\<close> and
  \<^verbatim>\<open>g_main_thread\<close> alone.
\<close>

definition app_creations :: "effect list \<Rightarrow> nat" where
  "app_creations es =
     length (filter (\<lambda>e. case e of App_create env act \<Rightarrow> True | _ \<Rightarrow> False) es)"

definition cond_signals :: "effect list \<Rightarrow> nat" where
  "cond_signals es = length (filter (\<lambda>e. e = Cond_signal) es)"

definition quiet :: "globals \<Rightarrow> globals \<Rightarrow> bool" where
  "quiet s s' \<longleftrightarrow>
     g_app s' = g_app s \<and> g_initialized s' = g_initialized s \<and>
     g_init_mutex s' = g_init_mutex s \<and> g_main_thread s' = g_main_thread s \<and>
     app_creations (trace s') = app_creations (trace s) \<and>
     cond_signals (trace s') = cond_signals (trace s)"

text \<open>
  The calls of a trace that hand an activity to the SDK: \<^verbatim>\<open>App::Create\<close>, whose last
  argument is the result of \<^verbatim>\<open>GetActivity\<close> (line 104 of \<^verbatim>\<open>common_main.cc\<close>), and
  \<^verbatim>\<open>BannerView::Initialize\<close>, whose first argument is the result of
  \<^verbatim>\<open>GetWindowContext\<close> (line 163).  The relation holds between the globals before and
  after a step that makes neither call and leaves alone what \<^verbatim>\<open>GetActivity\<close> and
  \<^verbatim>\<open>GetJniEnv\<close> read.
\<close>

definition activity_uses :: "effect list \<Rightarrow> effect list" where
  "activity_uses es =
     filter (\<lambda>e. case e of App_create env act \<Rightarrow> True
                | Banner_initialize context ad_unit ad_size \<Rightarrow> True
                | _ \<Rightarrow> False) es"

definition handles_kept :: "globals \<Rightarrow> globals \<Rightarrow> bool" where
  "handles_kept s s' \<longleftrightarrow>
     g_main_thread s' = g_main_thread s \<and> g_app_state s' = g_app_state s \<and>
     g_jni_env s' = g_jni_env s \<and> g_activity s' = g_activity s \<and>
     activity_uses (trace s') = activity_uses (trace s)"

text \<open>
  Answers for one call of the early-init entry point in which nothing fails: the SDK
  creates the application and the banner, and both futures are complete, without error,
  at the first look.
\<close>

definition sample_init :: early_init_reply where
  "sample_init =
     \<lparr>jni_called = \<lparr>attach_result = 0, attach_env = 9, thrown = None\<rparr>,
      firebase =
        \<lparr>create_vm = \<lparr>attach_result = 0, attach_env = 9\<rparr>, created_app = 21, created_banner = 22,
         jni_created = \<lparr>attach_result = 0, attach_env = 9, thrown = None\<rparr>,
         jni_initializing = \<lparr>attach_result = 0, attach_env = 9, thrown = None\<rparr>,
         jni_creating = \<lparr>attach_result = 0, attach_env = 9, thrown = None\<rparr>,
         initialize_result =
           \<lparr>future = \<lparr>Error = 0, ErrorMessage = []\<rparr>,
            ticks = [\<lparr>tick_poll = \<lparr>looperId = - 3, outData = None\<rparr>,
                      tick_status = kFutureStatusComplete\<rparr>],
            failed_jni = \<lparr>attach_result = 0, attach_env = 9, thrown = None\<rparr>\<rparr>,
         jni_showing = \<lparr>attach_result = 0, attach_env = 9, thrown = None\<rparr>,
         show_result =
           \<lparr>future = \<lparr>Error = 0, ErrorMessage = []\<rparr>,
            ticks = [\<lparr>tick_poll = \<lparr>looperId = - 3, outData = None\<rparr>,
                      tick_status = kFutureStatusComplete\<rparr>],
            failed_jni = \<lparr>attach_result = 0, attach_env = 9, thrown = None\<rparr>\<rparr>,
         jni_loading = \<lparr>attach_result = 0, attach_env = 9, thrown = None\<rparr>\<rparr>,
      jni_complete = \<lparr>attach_result = 0, attach_env = 9, thrown = None\<rparr>\<rparr>"

subsection \<open>Threads that enter \<^verbatim>\<open>android_main\<close>\<close>

text \<open>
  The places of a thread in \<^verbatim>\<open>android_main\<close>, each named after the statement the
  thread executes next: the test of line 293, lines 294, 296 and 297 of the branch taken
  when \<^verbatim>\<open>g_started\<close> is set, line 299 of the other branch, then lines 301, 303 and
  305, the session (lines 306 to 376), and lines 377, 378 and 379.
\<close>

datatype pc =
    At_entry | Set_restarted | Wait_lock | Wait_unlock | Init_mutex | Lock_started
  | Set_main_thread | Set_started | Session | Clear_started | Clear_restarted
  | Unlock_started | Returned

text \<open>
  A system of threads: the globals they share, the place of each thread, and what each
  thread read from \<^verbatim>\<open>g_started\<close> at line 293 (\<open>None\<close> before it has read it).  A
  thread runs \<^verbatim>\<open>android_main\<close> once; a thread that the platform never starts stays
  at the entry.
\<close>

record system =
  shared :: globals
  pcs :: "pthread_t \<Rightarrow> pc"
  saw_started :: "pthread_t \<Rightarrow> bool option"

text \<open>
  One statement of one thread.  Statements of different threads interleave, and each
  statement is one step.  \<^verbatim>\<open>pthread_mutex_lock\<close> has no step while the mutex is
  locked (\<open>None\<close>); \<^verbatim>\<open>pthread_mutex_unlock\<close> and the assignment of
  \<^verbatim>\<open>PTHREAD_MUTEX_INITIALIZER\<close> leave the mutex unlocked.  Lines 306 to 376 do not
  write \<^verbatim>\<open>g_started\<close>, \<^verbatim>\<open>g_restarted\<close> or \<^verbatim>\<open>g_started_mutex\<close>; their step
  here only ends the session, and what they do to the other globals is the rule
  \<open>other\<close> of \<open>reachable\<close>.
\<close>

definition thread_step :: "pthread_t \<Rightarrow> system \<Rightarrow> system option" where
  "thread_step t c =
     (case pcs c t of
        At_entry \<Rightarrow>
          Some (c\<lparr>pcs := (pcs c)(t := if g_started (shared c) then Set_restarted else Init_mutex),
                  saw_started := (saw_started c)(t := Some (g_started (shared c)))\<rparr>)
      | Set_restarted \<Rightarrow>
          Some (c\<lparr>shared := (shared c)\<lparr>g_restarted := True\<rparr>, pcs := (pcs c)(t := Wait_lock)\<rparr>)
      | Wait_lock \<Rightarrow>
          (case g_started_mutex (shared c) of
             Some owner \<Rightarrow> None
           | None \<Rightarrow>
               Some (c\<lparr>shared := (shared c)\<lparr>g_started_mutex := Some t\<rparr>,
                       pcs := (pcs c)(t := Wait_unlock)\<rparr>))
      | Wait_unlock \<Rightarrow>
          Some (c\<lparr>shared := (shared c)\<lparr>g_started_mutex := None\<rparr>, pcs := (pcs c)(t := Lock_started)\<rparr>)
      | Init_mutex \<Rightarrow>
          Some (c\<lparr>shared := (shared c)\<lparr>g_started_mutex := None\<rparr>, pcs := (pcs c)(t := Lock_started)\<rparr>)
      | Lock_started \<Rightarrow>
          (case g_started_mutex (shared c) of
             Some owner \<Rightarrow> None
           | None \<Rightarrow>
               Some (c\<lparr>shared := (shared c)\<lparr>g_started_mutex := Some t\<rparr>,
                       pcs := (pcs c)(t := Set_main_thread)\<rparr>))
      | Set_main_thread \<Rightarrow>
          Some (c\<lparr>shared := (shared c)\<lparr>g_main_thread := t\<rparr>, pcs := (pcs c)(t := Set_started)\<rparr>)
      | Set_started \<Rightarrow>
          Some (c\<lparr>shared := (shared c)\<lparr>g_started := True\<rparr>, pcs := (pcs c)(t := Session)\<rparr>)
      | Session \<Rightarrow> Some (c\<lparr>pcs := (pcs c)(t := Clear_started)\<rparr>)
      | Clear_started \<Rightarrow>
          Some (c\<lparr>shared := (shared c)\<lparr>g_started := False\<rparr>, pcs := (pcs c)(t := Clear_restarted)\<rparr>)
      | Clear_restarted \<Rightarrow>
          Some (c\<lparr>shared := (shared c)\<lparr>g_restarted := False\<rparr>, pcs := (pcs c)(t := Unlock_started)\<rparr>)
      | Unlock_started \<Rightarrow>
          Some (c\<lparr>shared := (shared c)\<lparr>g_started_mutex := None\<rparr>, pcs := (pcs c)(t := Returned)\<rparr>)
      | Returned \<Rightarrow> None)"

inductive reachable :: "system \<Rightarrow> bool" where
  start: "\<not> g_started g \<Longrightarrow> \<not> g_restarted g \<Longrightarrow> g_started_mutex g = None \<Longrightarrow>
    reachable \<lparr>shared = g, pcs = (\<lambda>t. At_entry), saw_started = (\<lambda>t. None)\<rparr>"
| thread: "reachable c \<Longrightarrow> thread_step t c = Some c' \<Longrightarrow> reachable c'"
| other: "reachable c \<Longrightarrow> g_started g = g_started (shared c) \<Longrightarrow>
    g_restarted g = g_restarted (shared c) \<Longrightarrow>
    g_started_mutex g = g_started_mutex (shared c) \<Longrightarrow> reachable (c\<lparr>shared := g\<rparr>)"

text \<open>The places at which a thread has locked \<^verbatim>\<open>g_started_mutex\<close> and not yet unlocked it.\<close>

fun in_gate :: "pc \<Rightarrow> bool" where
  "in_gate Wait_unlock = True"
| "in_gate Set_main_thread = True"
| "in_gate Set_started = True"
| "in_gate Session = True"
| "in_gate Clear_started = True"
| "in_gate Clear_restarted = True"
| "in_gate Unlock_started = True"
| "in_gate p = False"

text \<open>
  No thread but \<open>first\<close> has found \<^verbatim>\<open>g_started\<close> cleared at line 293: every other
  invocation so far has found an instance running.
\<close>

definition only_first_fresh :: "pthread_t \<Rightarrow> system \<Rightarrow> bool" where
  "only_first_fresh first c \<longleftrightarrow> (\<forall>t. t \<noteq> first \<longrightarrow> saw_started c t \<noteq> Some False)"

text \<open>Invariants of the reachable systems.\<close>

definition saw_inv :: "system \<Rightarrow> bool" where
  "saw_inv c \<longleftrightarrow>
     (\<forall>t. saw_started c t = None \<longleftrightarrow> pcs c t = At_entry) \<and>
     (\<forall>t. pcs c t = Init_mutex \<longrightarrow> saw_started c t = Some False) \<and>
     (g_started (shared c) \<longrightarrow> (\<exists>u. pcs c u = Session \<or> pcs c u = Clear_started))"

definition owner_inv :: "pthread_t \<Rightarrow> system \<Rightarrow> bool" where
  "owner_inv first c \<longleftrightarrow>
     (\<forall>u. in_gate (pcs c u) \<longrightarrow> g_started_mutex (shared c) = Some u) \<and>
     ((\<exists>t. saw_started c t = Some True) \<longrightarrow>
        pcs c first \<noteq> At_entry \<and> pcs c first \<noteq> Init_mutex) \<and>
     (g_started (shared c) \<longrightarrow> pcs c first \<noteq> At_entry \<and> pcs c first \<noteq> Init_mutex)"

text \<open>A schedule names the thread of each step, in order.\<close>

fun run_schedule :: "pthread_t list \<Rightarrow> system \<Rightarrow> system option" where
  "run_schedule [] c = Some c"
| "run_schedule (t # ts) c =
     (case thread_step t c of None \<Rightarrow> None | Some c' \<Rightarrow> run_schedule ts c')"

definition system_start :: system where
  "system_start = \<lparr>shared = process_start, pcs = (\<lambda>t. At_entry), saw_started = (\<lambda>t. None)\<rparr>"

section \<open>Properties\<close>

subsection \<open>The event pump\<close>

lemma fold_OnAppCmd:
  "fold OnAppCmd cs s =
     s\<lparr>g_destroy_requested := (g_destroy_requested s \<or> APP_CMD_DESTROY \<in> set cs)\<rparr>"
  by (induction cs arbitrary: s) (auto simp: OnAppCmd_def eq_commute[of APP_CMD_DESTROY])

lemma usleep_in_range:
  fixes msec :: "32 word"
  assumes "0 \<le> sint msec" and "sint msec \<le> 2147483"
  shows "uint (1000 * msec) = 1000 * sint msec"
proof -
  have "uint msec = take_bit 32 (sint msec)"
    by (simp add: uint_sint)
  also have "\<dots> = sint msec"
    using assms by (simp add: take_bit_int_eq_self)
  finally have u: "uint msec = sint msec" .
  have "uint (1000 * msec) = (1000 * uint msec) mod 2 ^ 32"
    by (simp add: uint_word_ariths)
  also have "\<dots> = 1000 * uint msec"
    using assms u by simp
  finally show ?thesis
    using u by simp
qed

text \<open>
  What a call of \<^verbatim>\<open>ProcessEvents\<close> changes: the trace and, through the command observer,
  \<^verbatim>\<open>g_destroy_requested\<close>; nothing else.
\<close>

lemma ProcessEvents_changes:
  "snd (ProcessEvents self msec poll s) =
     s\<lparr>g_destroy_requested := g_destroy_requested (snd (ProcessEvents self msec poll s)),
       trace := trace (snd (ProcessEvents self msec poll s))\<rparr>"
  by (simp add: ProcessEvents_def emit_def Let_def source_process_def fold_OnAppCmd
      split: option.splits)

lemma ProcessEvents_result:
  "fst (ProcessEvents self msec poll s) \<longleftrightarrow>
     g_destroy_requested (snd (ProcessEvents self msec poll s)) \<or> g_restarted s"
  by (simp add: ProcessEvents_def emit_def Let_def source_process_def fold_OnAppCmd
      split: option.splits)

lemma ProcessEvents_destroy_mono:
  "g_destroy_requested s \<Longrightarrow> g_destroy_requested (snd (ProcessEvents self msec poll s))"
  by (simp add: ProcessEvents_def emit_def Let_def source_process_def fold_OnAppCmd
      split: option.splits)

lemma ProcessEvents_fields:
  "g_app_state (snd (ProcessEvents self msec poll s)) = g_app_state s"
  "g_started (snd (ProcessEvents self msec poll s)) = g_started s"
  "g_restarted (snd (ProcessEvents self msec poll s)) = g_restarted s"
  "g_started_mutex (snd (ProcessEvents self msec poll s)) = g_started_mutex s"
  "g_jni_env (snd (ProcessEvents self msec poll s)) = g_jni_env s"
  "g_activity (snd (ProcessEvents self msec poll s)) = g_activity s"
  "g_init_mutex (snd (ProcessEvents self msec poll s)) = g_init_mutex s"
  "g_main_thread (snd (ProcessEvents self msec poll s)) = g_main_thread s"
  "g_initialized (snd (ProcessEvents self msec poll s)) = g_initialized s"
  "g_logging_utils_data (snd (ProcessEvents self msec poll s)) = g_logging_utils_data s"
  "g_app (snd (ProcessEvents self msec poll s)) = g_app s"
  "g_banner (snd (ProcessEvents self msec poll s)) = g_banner s"
  "g_request (snd (ProcessEvents self msec poll s)) = g_request s"
  "jni_pending (snd (ProcessEvents self msec poll s)) = jni_pending s"
  by (simp_all add: ProcessEvents_def emit_def Let_def source_process_def fold_OnAppCmd
      split: option.splits)

lemma ProcessEvents_trace_main:
  "g_main_thread s = self \<Longrightarrow>
   trace (snd (ProcessEvents self msec poll s)) =
     trace s @ ALooper_pollAll msec #
       (case outData poll of
          None \<Rightarrow> []
        | Some source \<Rightarrow> if 0 \<le> sint (looperId poll) then [Source_process source] else [])"
  by (simp add: ProcessEvents_def emit_def Let_def source_process_def fold_OnAppCmd
      split: option.splits)


text \<open>
  C2.  Called from a thread other than the main thread, \<^verbatim>\<open>ProcessEvents(msec)\<close> makes one
  platform call, \<^verbatim>\<open>usleep(1000 * msec)\<close>: the looper is not polled and no source is
  dispatched.  No global changes, and the result is true exactly when
  \<^verbatim>\<open>g_destroy_requested\<close> or \<^verbatim>\<open>g_restarted\<close> is set.  The argument of \<^verbatim>\<open>usleep\<close>
  is computed in 32 bits as the source computes it; for \<open>0 \<le> msec \<le> 2147483\<close> it is
  \<open>msec\<close> milliseconds, counted in microseconds.
\<close>

theorem ProcessEvents_off_main_thread:
  "g_main_thread s \<noteq> self \<Longrightarrow>
   ProcessEvents self msec poll s =
     (g_destroy_requested s \<or> g_restarted s, s\<lparr>trace := trace s @ [Usleep (1000 * msec)]\<rparr>) \<and>
   (0 \<le> sint msec \<and> sint msec \<le> 2147483 \<longrightarrow> uint (1000 * msec) = 1000 * sint msec)"
  by (simp add: ProcessEvents_def emit_def Let_def usleep_in_range)

theorem ProcessEvents_off_main_thread_witness:
  "g_main_thread process_start \<noteq> 7 \<and>
   ProcessEvents 7 10 \<lparr>looperId = 1, outData = Some (Poll_source [APP_CMD_DESTROY])\<rparr> process_start =
     (False, process_start\<lparr>trace := [Usleep 10000]\<rparr>) \<and>
   uint (1000 * 10 :: 32 word) = 1000 * sint (10 :: 32 word)"
proof -
  have "g_main_thread process_start \<noteq> 7"
    by (simp add: process_start_def)
  from ProcessEvents_off_main_thread [OF this, of 10 "\<lparr>looperId = 1, outData = Some (Poll_source [APP_CMD_DESTROY])\<rparr>"]
  show ?thesis
    by (simp add: process_start_def)
qed

text \<open>
  C3.  Called from the main thread, \<^verbatim>\<open>ProcessEvents(msec)\<close> polls the looper once, with
  the timeout \<open>msec\<close>; it dispatches the source the poll hands over when the poll reports
  an identifier that is not negative together with a source, and dispatches nothing
  otherwise.  The result is true exactly when, after the dispatch,
  \<^verbatim>\<open>g_destroy_requested\<close> or \<^verbatim>\<open>g_restarted\<close> is set.
\<close>

theorem ProcessEvents_on_main_thread:
  "g_main_thread s = self \<Longrightarrow>
   (case ProcessEvents self msec poll s of
      (r, s') \<Rightarrow>
        trace s' = trace s @ ALooper_pollAll msec #
          (case outData poll of
             None \<Rightarrow> []
           | Some source \<Rightarrow> if 0 \<le> sint (looperId poll) then [Source_process source] else []) \<and>
        (r \<longleftrightarrow> g_destroy_requested s' \<or> g_restarted s'))"
  by (simp add: ProcessEvents_def emit_def Let_def source_process_def fold_OnAppCmd
      split: option.splits)

theorem ProcessEvents_on_main_thread_witness:
  "g_main_thread
     (process_start\<lparr>g_main_thread := 7,
        g_app_state := Some \<lparr>activity = \<lparr>clazz = 3\<rparr>, onAppCmd = True\<rparr>\<rparr>) = 7 \<and>
   (case ProcessEvents 7 10 \<lparr>looperId = 1, outData = Some (Poll_source [APP_CMD_DESTROY])\<rparr>
      (process_start\<lparr>g_main_thread := 7,
         g_app_state := Some \<lparr>activity = \<lparr>clazz = 3\<rparr>, onAppCmd = True\<rparr>\<rparr>) of
      (r, s') \<Rightarrow>
        trace s' = [ALooper_pollAll 10, Source_process (Poll_source [APP_CMD_DESTROY])] \<and> r)"
  using ProcessEvents_on_main_thread
    [of "process_start\<lparr>g_main_thread := 7,
           g_app_state := Some \<lparr>activity = \<lparr>clazz = 3\<rparr>, onAppCmd = True\<rparr>\<rparr>" 7 10
        "\<lparr>looperId = 1, outData = Some (Poll_source [APP_CMD_DESTROY])\<rparr>"]
  by (simp add: process_start_def ProcessEvents_def emit_def Let_def source_process_def
      OnAppCmd_def)

subsection \<open>The wait for early initialisation\<close>





subsection \<open>The destroy request\<close>

lemma ProcessEvents_calls_destroyed:
  "g_destroy_requested s \<Longrightarrow>
   (\<forall>r \<in> set (fst (ProcessEvents_calls calls s)). r) \<and>
   g_destroy_requested (snd (ProcessEvents_calls calls s))"
proof (induction calls arbitrary: s)
  case Nil
  then show ?case by simp
next
  case (Cons c calls)
  obtain self msec poll where c: "c = (self, msec, poll)"
    by (cases c)
  obtain r s1 where pe: "ProcessEvents self msec poll s = (r, s1)"
    by (cases "ProcessEvents self msec poll s")
  have d: "g_destroy_requested s1"
    using ProcessEvents_destroy_mono [OF Cons.prems, of self msec poll] pe by simp
  have r: "r"
    using ProcessEvents_result [of self msec poll s] pe d by simp
  show ?case
    using Cons.IH [OF d] c pe r by (auto split: prod.splits)
qed

lemma wait_loop_destroy_mono:
  "android_main_wait_loop self rounds s = Some s' \<Longrightarrow> g_destroy_requested s \<Longrightarrow>
   g_destroy_requested s'"
proof (induction rounds arbitrary: s)
  case Nil
  then show ?case by (simp split: if_splits)
next
  case (Cons t ts)
  show ?case
  proof (cases "g_initialized s")
    case True
    with Cons.prems show ?thesis by simp
  next
    case False
    obtain r s1 where pe: "ProcessEvents self 10 (init_poll t) s = (r, s1)"
      by (cases "ProcessEvents self 10 (init_poll t) s")
    have d: "g_destroy_requested s1"
      using ProcessEvents_destroy_mono [OF Cons.prems(2), of self 10 "init_poll t"] pe by simp
    have "r"
      using ProcessEvents_result [of self 10 "init_poll t" s] pe d by simp
    with Cons.prems(1) False pe d show ?thesis by simp
  qed
qed

lemma WaitForFutureCompletion_loop_destroy_mono:
  "WaitForFutureCompletion_loop self rounds s = Some s' \<Longrightarrow> g_destroy_requested s \<Longrightarrow>
   g_destroy_requested s'"
proof (induction rounds arbitrary: s)
  case Nil
  then show ?case by simp
next
  case (Cons t ts)
  obtain r s1 where pe: "ProcessEvents self 1000 (tick_poll t) s = (r, s1)"
    by (cases "ProcessEvents self 1000 (tick_poll t) s")
  have d: "g_destroy_requested s1"
    using ProcessEvents_destroy_mono [OF Cons.prems(2), of self 1000 "tick_poll t"] pe by simp
  have "r"
    using ProcessEvents_result [of self 1000 "tick_poll t" s] pe d by simp
  with Cons.prems(1) pe d show ?case by simp
qed

lemma android_main_finish_destroy_mono:
  "g_destroy_requested s \<Longrightarrow>
   (case android_main_finish self state poll vm s of
      Return s' \<Rightarrow> g_destroy_requested s'
    | Abort e s' \<Rightarrow> g_destroy_requested s')"
  using ProcessEvents_destroy_mono [of s self 10 poll]
  by (auto simp: android_main_finish_def and_then_def LoggingUtilsData_destructor_def
      GetJniEnv_def emit_def Let_def split: prod.splits option.splits outcome.splits if_splits)

lemma LogMessage_destroy_kept:
  "case LogMessage self fmt args jni s of
     Return s' \<Rightarrow> g_destroy_requested s' = g_destroy_requested s
   | Abort e s' \<Rightarrow> g_destroy_requested s' = g_destroy_requested s"
  by (auto simp: LogMessage_def AppendText_def CheckJNIException_def GetJniEnv_def and_then_def
      emit_def Let_def split: option.splits outcome.splits)

text \<open>
  C10.  \<^verbatim>\<open>android_main\<close> sets \<^verbatim>\<open>g_destroy_requested\<close> to false when it saves the state
  of the glue (line 308).  After that the flag only rises: the command observer sets it
  to its old value or-ed with the comparison of the command to \<^verbatim>\<open>APP_CMD_DESTROY\<close>;
  \<^verbatim>\<open>ProcessEvents\<close>, the wait for the early initialisation, the loop that waits for a
  future and the last part of \<^verbatim>\<open>android_main\<close> leave a set flag set, and the logging
  sink leaves the flag as it is.  Once it is set,
  every later call of \<^verbatim>\<open>ProcessEvents\<close>, from any thread and with any answer of the
  looper, returns true.
\<close>

theorem destroy_requested_monotone:
  "\<not> g_destroy_requested (android_main_save_state state s) \<and>
   (g_destroy_requested (OnAppCmd cmd s) \<longleftrightarrow> g_destroy_requested s \<or> cmd = APP_CMD_DESTROY) \<and>
   (g_destroy_requested s \<longrightarrow>
      fst (ProcessEvents self msec poll s) \<and>
      g_destroy_requested (snd (ProcessEvents self msec poll s))) \<and>
   (g_destroy_requested s \<longrightarrow>
      (\<forall>r \<in> set (fst (ProcessEvents_calls calls s)). r) \<and>
      g_destroy_requested (snd (ProcessEvents_calls calls s))) \<and>
   (g_destroy_requested s \<longrightarrow> android_main_wait_loop self rounds s = Some s1 \<longrightarrow>
      g_destroy_requested s1) \<and>
   (g_destroy_requested s \<longrightarrow> WaitForFutureCompletion_loop self waits s = Some s2 \<longrightarrow>
      g_destroy_requested s2) \<and>
   (g_destroy_requested s \<longrightarrow>
      (case android_main_finish self state poll vm s of
         Return s3 \<Rightarrow> g_destroy_requested s3
       | Abort e s3 \<Rightarrow> g_destroy_requested s3)) \<and>
   (case LogMessage self fmt args jni s of
      Return s4 \<Rightarrow> g_destroy_requested s4 = g_destroy_requested s
    | Abort e s4 \<Rightarrow> g_destroy_requested s4 = g_destroy_requested s)"
proof -
  have "\<not> g_destroy_requested (android_main_save_state state s)"
    by (simp add: android_main_save_state_def)
  moreover have "g_destroy_requested (OnAppCmd cmd s) \<longleftrightarrow>
      g_destroy_requested s \<or> cmd = APP_CMD_DESTROY"
    by (simp add: OnAppCmd_def)
  moreover have "g_destroy_requested s \<longrightarrow>
      fst (ProcessEvents self msec poll s) \<and>
      g_destroy_requested (snd (ProcessEvents self msec poll s))"
    using ProcessEvents_destroy_mono [of s self msec poll]
      ProcessEvents_result [of self msec poll s] by blast
  moreover have "g_destroy_requested s \<longrightarrow>
      (\<forall>r \<in> set (fst (ProcessEvents_calls calls s)). r) \<and>
      g_destroy_requested (snd (ProcessEvents_calls calls s))"
    using ProcessEvents_calls_destroyed [of s calls] by blast
  moreover have "g_destroy_requested s \<longrightarrow> android_main_wait_loop self rounds s = Some s1 \<longrightarrow>
      g_destroy_requested s1"
    using wait_loop_destroy_mono [of self rounds s s1] by blast
  moreover have "g_destroy_requested s \<longrightarrow> WaitForFutureCompletion_loop self waits s = Some s2 \<longrightarrow>
      g_destroy_requested s2"
    using WaitForFutureCompletion_loop_destroy_mono [of self waits s s2] by blast
  moreover have "g_destroy_requested s \<longrightarrow>
      (case android_main_finish self state poll vm s of
         Return s3 \<Rightarrow> g_destroy_requested s3
       | Abort e s3 \<Rightarrow> g_destroy_requested s3)"
    using android_main_finish_destroy_mono [of s self state poll vm] by blast
  moreover have "case LogMessage self fmt args jni s of
      Return s4 \<Rightarrow> g_destroy_requested s4 = g_destroy_requested s
    | Abort e s4 \<Rightarrow> g_destroy_requested s4 = g_destroy_requested s"
    by (rule LogMessage_destroy_kept)
  ultimately show ?thesis by blast
qed

theorem destroy_requested_monotone_witness:
  "g_destroy_requested
     (OnAppCmd APP_CMD_DESTROY
        (android_main_save_state \<lparr>activity = \<lparr>clazz = 3\<rparr>, onAppCmd = False\<rparr> process_start)) \<and>
   fst (ProcessEvents_calls
          [(0, 10, \<lparr>looperId = - 3, outData = None\<rparr>), (8, 1000, \<lparr>looperId = - 3, outData = None\<rparr>)]
          (OnAppCmd APP_CMD_DESTROY
             (android_main_save_state \<lparr>activity = \<lparr>clazz = 3\<rparr>, onAppCmd = False\<rparr> process_start))) =
     [True, True]"
proof -
  let ?s = "android_main_save_state \<lparr>activity = \<lparr>clazz = 3\<rparr>, onAppCmd = False\<rparr> process_start"
  let ?calls = "[(0, 10, \<lparr>looperId = - 3, outData = None\<rparr>),
                 (8, 1000, \<lparr>looperId = - 3, outData = None\<rparr>)]"
  have d: "g_destroy_requested (OnAppCmd APP_CMD_DESTROY ?s)"
    using destroy_requested_monotone
        [of "\<lparr>activity = \<lparr>clazz = 3\<rparr>, onAppCmd = False\<rparr>" ?s APP_CMD_DESTROY]
    by blast
  have "\<forall>r \<in> set (fst (ProcessEvents_calls ?calls (OnAppCmd APP_CMD_DESTROY ?s))). r"
    using destroy_requested_monotone
        [of "\<lparr>activity = \<lparr>clazz = 3\<rparr>, onAppCmd = False\<rparr>" "OnAppCmd APP_CMD_DESTROY ?s"
           APP_CMD_DESTROY 0 10 "\<lparr>looperId = - 3, outData = None\<rparr>" ?calls] d
    by blast
  moreover have "length (fst (ProcessEvents_calls ?calls (OnAppCmd APP_CMD_DESTROY ?s))) = 2"
    by (simp split: prod.splits)
  ultimately show ?thesis
    using d by (auto simp: length_Suc_conv numeral_2_eq_2)
qed

subsection \<open>The logging sink\<close>

lemma LogMessage_off_screen:
  "g_main_thread s \<noteq> self \<or> g_logging_utils_data s = None \<Longrightarrow>
   LogMessage self fmt args jni s = Return (emit (Android_log fmt args) s)"
  by (auto simp: LogMessage_def emit_def Let_def)

lemma LogMessage_on_screen:
  assumes "g_main_thread s = self" and "g_logging_utils_data s = Some this"
    and "logging_utils_class this \<noteq> 0" and "g_app_state s = Some app"
    and "attach_result jni = JNI_OK" and "attach_env jni \<noteq> 0"
  shows "LogMessage self fmt args jni s =
    (case (case jni_pending s of Some e \<Rightarrow> Some e | None \<Rightarrow> thrown jni) of
       None \<Rightarrow>
         Return (s\<lparr>trace := trace s @
           [Android_log fmt args, Attach_current_thread,
            Add_log_text (logging_utils_class this) (logging_utils_add_log_text this) fmt args,
            Attach_current_thread]\<rparr>)
     | Some exception \<Rightarrow>
         Abort Assert_failed (s\<lparr>jni_pending := None, trace := trace s @
           [Android_log fmt args, Attach_current_thread,
            Add_log_text (logging_utils_class this) (logging_utils_add_log_text this) fmt args,
            Attach_current_thread, Exception_clear,
            Android_log ''-------------------JNI exception:'' [],
            Android_log ''%s'' [Arg_str exception],
            Android_log ''-------------------'' []]\<rparr>))"
  using assms
  by (auto simp: LogMessage_def AppendText_def CheckJNIException_def GetJniEnv_def and_then_def
      emit_def Let_def split: option.splits)



lemma LogMessage_returned_attached:
  assumes "g_main_thread s = self" and "g_logging_utils_data s = Some this"
    and "LogMessage self fmt args jni s = Return s'"
  shows "attach_result jni = JNI_OK \<and> attach_env jni \<noteq> 0"
  using assms
  by (auto simp: LogMessage_def AppendText_def CheckJNIException_def GetJniEnv_def and_then_def
      emit_def Let_def split: option.splits if_splits)

text \<open>
  C9.  Before the log view exists the mirroring is dropped: \<^verbatim>\<open>LogMessage\<close> with
  \<^verbatim>\<open>g_logging_utils_data\<close> null writes the line to the Android log and returns, and
  \<^verbatim>\<open>AppendText\<close> on an object whose class reference is null returns at once; neither
  makes a JNI call.  On the main thread with the view up and a JNI environment attached,
  \<^verbatim>\<open>LogMessage\<close> calls \<^verbatim>\<open>addLogText\<close> and then checks the environment: when an
  exception is pending (one that was pending before, or the one \<^verbatim>\<open>addLogText\<close>
  raises), it is cleared, three lines with its text are written to the Android log, and
  the assertion ends the execution; when none is pending, the call returns.
\<close>

theorem LogMessage_drops_or_checks:
  "(g_logging_utils_data s = None \<longrightarrow>
      LogMessage self fmt args jni s = Return (emit (Android_log fmt args) s)) \<and>
   (logging_utils_class this = 0 \<longrightarrow> AppendText self this fmt args jni s = Return s) \<and>
   (g_main_thread s = self \<and> g_logging_utils_data s = Some this \<and>
    logging_utils_class this \<noteq> 0 \<and> g_app_state s = Some app \<and>
    attach_result jni = JNI_OK \<and> attach_env jni \<noteq> 0 \<longrightarrow>
      LogMessage self fmt args jni s =
        (case (case jni_pending s of Some e \<Rightarrow> Some e | None \<Rightarrow> thrown jni) of
           None \<Rightarrow>
             Return (s\<lparr>trace := trace s @
               [Android_log fmt args, Attach_current_thread,
                Add_log_text (logging_utils_class this) (logging_utils_add_log_text this) fmt args,
                Attach_current_thread]\<rparr>)
         | Some exception \<Rightarrow>
             Abort Assert_failed (s\<lparr>jni_pending := None, trace := trace s @
               [Android_log fmt args, Attach_current_thread,
                Add_log_text (logging_utils_class this) (logging_utils_add_log_text this) fmt args,
                Attach_current_thread, Exception_clear,
                Android_log ''-------------------JNI exception:'' [],
                Android_log ''%s'' [Arg_str exception],
                Android_log ''-------------------'' []]\<rparr>)))"
proof -
  have "g_logging_utils_data s = None \<longrightarrow>
      LogMessage self fmt args jni s = Return (emit (Android_log fmt args) s)"
    using LogMessage_off_screen [of s self fmt args jni] by blast
  moreover have "logging_utils_class this = 0 \<longrightarrow> AppendText self this fmt args jni s = Return s"
    by (simp add: AppendText_def)
  ultimately show ?thesis
    using LogMessage_on_screen [of s self this app jni fmt args] by blast
qed

theorem LogMessage_drops_or_checks_witness:
  "LogMessage 7 ''Logging display up'' []
      \<lparr>attach_result = 0, attach_env = 9, thrown = Some ''java.lang.IllegalStateException''\<rparr>
      (process_start\<lparr>g_main_thread := 7\<rparr>) =
     Return (process_start\<lparr>g_main_thread := 7, trace := [Android_log ''Logging display up'' []]\<rparr>) \<and>
   LogMessage 7 ''Logging display up'' []
      \<lparr>attach_result = 0, attach_env = 9, thrown = Some ''java.lang.IllegalStateException''\<rparr>
      (process_start\<lparr>g_main_thread := 7,
         g_app_state := Some \<lparr>activity = \<lparr>clazz = 3\<rparr>, onAppCmd = True\<rparr>,
         g_logging_utils_data := Some \<lparr>logging_utils_class = 11, logging_utils_add_log_text = 12,
            logging_utils_init_log_window = 13\<rparr>\<rparr>) =
     Abort Assert_failed
       (process_start\<lparr>g_main_thread := 7,
         g_app_state := Some \<lparr>activity = \<lparr>clazz = 3\<rparr>, onAppCmd = True\<rparr>,
         g_logging_utils_data := Some \<lparr>logging_utils_class = 11, logging_utils_add_log_text = 12,
            logging_utils_init_log_window = 13\<rparr>,
         trace := [Android_log ''Logging display up'' [], Attach_current_thread,
                Add_log_text 11 12 ''Logging display up'' [], Attach_current_thread,
                Exception_clear,
                Android_log ''-------------------JNI exception:'' [],
                Android_log ''%s'' [Arg_str ''java.lang.IllegalStateException''],
                Android_log ''-------------------'' []]\<rparr>)"
  using
    LogMessage_drops_or_checks [of "process_start\<lparr>g_main_thread := 7\<rparr>" 7 "''Logging display up''" "[]"
      "\<lparr>attach_result = 0, attach_env = 9, thrown = Some ''java.lang.IllegalStateException''\<rparr>"
      "\<lparr>logging_utils_class = 11, logging_utils_add_log_text = 12,
            logging_utils_init_log_window = 13\<rparr>"]
    LogMessage_drops_or_checks [of "process_start\<lparr>g_main_thread := 7,
         g_app_state := Some \<lparr>activity = \<lparr>clazz = 3\<rparr>, onAppCmd = True\<rparr>,
         g_logging_utils_data := Some \<lparr>logging_utils_class = 11, logging_utils_add_log_text = 12,
            logging_utils_init_log_window = 13\<rparr>\<rparr>" 7 "''Logging display up''" "[]"
      "\<lparr>attach_result = 0, attach_env = 9, thrown = Some ''java.lang.IllegalStateException''\<rparr>"
      "\<lparr>logging_utils_class = 11, logging_utils_add_log_text = 12,
            logging_utils_init_log_window = 13\<rparr>"
      "\<lparr>activity = \<lparr>clazz = 3\<rparr>, onAppCmd = True\<rparr>"]
  by (simp add: process_start_def emit_def JNI_OK_def)

subsection \<open>Waiting for a future\<close>






subsection \<open>The end of the session\<close>

lemma android_main_finish_runs:
  assumes "g_main_thread s = self" and "g_app_state s = Some app"
    and "g_logging_utils_data s = None \<or> attach_result vm = JNI_OK \<and> attach_env vm \<noteq> 0"
  shows "\<exists>s'. android_main_finish self state poll vm s = Return s' \<and>
     trace s' = trace s @
       ALooper_pollAll 10 #
       (case outData poll of
          None \<Rightarrow> []
        | Some source \<Rightarrow> if 0 \<le> sint (looperId poll) then [Source_process source] else []) @
       (case g_logging_utils_data s of
          None \<Rightarrow> []
        | Some this \<Rightarrow>
            Attach_current_thread #
            (if logging_utils_class this \<noteq> 0 then [Delete_global_ref (logging_utils_class this)]
             else [])) @
       (if g_restarted s then [] else [ANativeActivity_finish (activity state)]) @
       [Detach_current_thread] \<and>
     g_logging_utils_data s' = None \<and> \<not> g_initialized s' \<and>
     \<not> g_started s' \<and> \<not> g_restarted s' \<and> g_started_mutex s' = None"
proof -
  obtain r s1 where pe: "ProcessEvents self 10 poll s = (r, s1)"
    by (cases "ProcessEvents self 10 poll s")
  have f: "g_main_thread s1 = self" "g_app_state s1 = Some app"
    "g_logging_utils_data s1 = g_logging_utils_data s" "g_restarted s1 = g_restarted s"
    using ProcessEvents_fields(8,1,10,3) [of self 10 poll s] pe assms by simp_all
  have tr: "trace s1 = trace s @ ALooper_pollAll 10 #
       (case outData poll of
          None \<Rightarrow> []
        | Some source \<Rightarrow> if 0 \<le> sint (looperId poll) then [Source_process source] else [])"
    using ProcessEvents_trace_main [OF assms(1), of 10 poll] pe by simp
  show ?thesis
    using assms(3) pe f tr
    by (auto simp: android_main_finish_def and_then_def LoggingUtilsData_destructor_def
        GetJniEnv_def emit_def Let_def split: option.splits)
qed

text \<open>
  C5.  The last part of \<^verbatim>\<open>android_main\<close> (lines 363 to 379), which follows the return
  of \<^verbatim>\<open>common_main\<close>.  It is run by the main thread of the session, on the
  application state saved at line 309, and \<^verbatim>\<open>AttachCurrentThread\<close> gives this thread
  its environment: the thread was attached when the log view was created (line 170
  asserts it) and is detached only at line 376, and a thread without an environment does
  not get past a log line that is mirrored to the view.  The part then runs to its end,
  whatever the looper answers, and does, in this order: one call of
  \<^verbatim>\<open>ProcessEvents(10)\<close>, which dispatches the source the poll hands over; the deletion
  of the logging data, with its global reference; \<^verbatim>\<open>ANativeActivity_finish\<close> exactly
  when \<^verbatim>\<open>g_restarted\<close> is not set; \<^verbatim>\<open>DetachCurrentThread\<close>.  Afterwards
  \<^verbatim>\<open>g_started\<close> and \<^verbatim>\<open>g_restarted\<close> are false and \<^verbatim>\<open>g_started_mutex\<close> is
  unlocked.
\<close>

theorem android_main_finish_outcome:
  assumes "g_main_thread s = self" and "g_app_state s = Some app"
    and "g_logging_utils_data s = None \<or> attach_result vm = JNI_OK \<and> attach_env vm \<noteq> 0"
  shows
    "\<exists>s'. android_main_finish self state poll vm s = Return s' \<and>
       trace s' = trace s @
         ALooper_pollAll 10 #
         (case outData poll of
            None \<Rightarrow> []
          | Some source \<Rightarrow> if 0 \<le> sint (looperId poll) then [Source_process source] else []) @
         (case g_logging_utils_data s of
            None \<Rightarrow> []
          | Some this \<Rightarrow>
              Attach_current_thread #
              (if logging_utils_class this \<noteq> 0
               then [Delete_global_ref (logging_utils_class this)] else [])) @
         (if g_restarted s then [] else [ANativeActivity_finish (activity state)]) @
         [Detach_current_thread] \<and>
       g_logging_utils_data s' = None \<and> \<not> g_initialized s' \<and>
       \<not> g_started s' \<and> \<not> g_restarted s' \<and> g_started_mutex s' = None"
  using android_main_finish_runs [OF assms, of state poll]
  by blast

theorem android_main_finish_outcome_witness:
  "\<exists>s'. android_main_finish 7 \<lparr>activity = \<lparr>clazz = 3\<rparr>, onAppCmd = True\<rparr>
       \<lparr>looperId = 1, outData = Some (Poll_source [APP_CMD_DESTROY])\<rparr>
       \<lparr>attach_result = 0, attach_env = 9\<rparr>
       (process_start\<lparr>g_main_thread := 7, g_started := True, g_started_mutex := Some 7,
         g_initialized := True,
         g_app_state := Some \<lparr>activity = \<lparr>clazz = 3\<rparr>, onAppCmd = True\<rparr>,
         g_logging_utils_data := Some \<lparr>logging_utils_class = 11, logging_utils_add_log_text = 12,
            logging_utils_init_log_window = 13\<rparr>\<rparr>) = Return s' \<and>
     trace s' = [ALooper_pollAll 10, Source_process (Poll_source [APP_CMD_DESTROY]),
                 Attach_current_thread, Delete_global_ref 11,
                 ANativeActivity_finish \<lparr>clazz = 3\<rparr>, Detach_current_thread] \<and>
     \<not> g_started s' \<and> \<not> g_restarted s' \<and> g_started_mutex s' = None"
proof -
  let ?app = "\<lparr>activity = \<lparr>clazz = 3\<rparr>, onAppCmd = True\<rparr>"
  let ?s = "process_start\<lparr>g_main_thread := 7, g_started := True, g_started_mutex := Some 7,
         g_initialized := True, g_app_state := Some ?app,
         g_logging_utils_data := Some \<lparr>logging_utils_class = 11, logging_utils_add_log_text = 12,
            logging_utils_init_log_window = 13\<rparr>\<rparr>"
  let ?vm = "\<lparr>attach_result = 0, attach_env = 9\<rparr>"
  have h: "g_main_thread ?s = 7" "g_app_state ?s = Some ?app"
    "g_logging_utils_data ?s = None \<or> attach_result ?vm = JNI_OK \<and> attach_env ?vm \<noteq> 0"
    by (simp_all add: JNI_OK_def)
  have e: "trace ?s = []" "\<not> g_restarted ?s"
    by (simp_all add: process_start_def)
  from android_main_finish_outcome [OF h, of ?app
      "\<lparr>looperId = 1, outData = Some (Poll_source [APP_CMD_DESTROY])\<rparr>"]
  obtain s' where "android_main_finish 7 ?app
       \<lparr>looperId = 1, outData = Some (Poll_source [APP_CMD_DESTROY])\<rparr> ?vm ?s = Return s'"
    and "trace s' = trace ?s @
            ALooper_pollAll 10 #
            (case outData \<lparr>looperId = 1, outData = Some (Poll_source [APP_CMD_DESTROY])\<rparr> of
               None \<Rightarrow> []
             | Some source \<Rightarrow>
                 if 0 \<le> sint (looperId \<lparr>looperId = 1 :: 32 word,
                      outData = Some (Poll_source [APP_CMD_DESTROY])\<rparr>)
                 then [Source_process source] else []) @
            (case g_logging_utils_data ?s of
               None \<Rightarrow> []
             | Some this \<Rightarrow>
                 Attach_current_thread #
                 (if logging_utils_class this \<noteq> 0
                  then [Delete_global_ref (logging_utils_class this)] else [])) @
            (if g_restarted ?s then [] else [ANativeActivity_finish (activity ?app)]) @
            [Detach_current_thread]"
    and "\<not> g_started s'" and "\<not> g_restarted s'" and "g_started_mutex s' = None"
    by blast
  then show ?thesis
    using e by simp
qed

subsection \<open>Early initialisation\<close>

lemma quiet_trans: "quiet s s1 \<Longrightarrow> quiet s1 s2 \<Longrightarrow> quiet s s2"
  by (simp add: quiet_def)

lemma quiet_ProcessEvents: "quiet s (snd (ProcessEvents self msec poll s))"
  by (simp add: quiet_def ProcessEvents_def emit_def Let_def source_process_def fold_OnAppCmd
      app_creations_def cond_signals_def split: option.splits)

lemma quiet_WaitForFutureCompletion_loop:
  "WaitForFutureCompletion_loop self rounds s = Some s' \<Longrightarrow> quiet s s'"
proof (induction rounds arbitrary: s)
  case Nil
  then show ?case by simp
next
  case (Cons t ts)
  obtain r s1 where pe: "ProcessEvents self 1000 (tick_poll t) s = (r, s1)"
    by (cases "ProcessEvents self 1000 (tick_poll t) s")
  have q: "quiet s s1"
    using quiet_ProcessEvents [of s self 1000 "tick_poll t"] pe by simp
  show ?case
  proof (cases "r \<or> tick_status t \<noteq> kFutureStatusPending")
    case True
    with Cons.prems pe have "s' = s1" by (auto split: if_splits)
    with q show ?thesis by simp
  next
    case False
    with Cons.prems pe have "WaitForFutureCompletion_loop self ts s1 = Some s'" by simp
    from Cons.IH [OF this] q show ?thesis by (rule quiet_trans [rotated])
  qed
qed

lemma quiet_LogMessage:
  "LogMessage self fmt args jni s = Return s' \<Longrightarrow> quiet s s'"
  by (auto simp: LogMessage_def AppendText_def CheckJNIException_def GetJniEnv_def and_then_def
      emit_def Let_def quiet_def app_creations_def cond_signals_def
      split: option.splits if_splits outcome.splits prod.splits)

lemma quiet_WaitForFutureCompletion:
  "WaitForFutureCompletion self fut rounds jni s = Some (Return s') \<Longrightarrow> quiet s s'"
  using quiet_WaitForFutureCompletion_loop quiet_LogMessage quiet_trans
  by (fastforce simp: WaitForFutureCompletion_def split: option.splits if_splits)

lemma quiet_GetJniEnv:
  "GetJniEnv self vm s = Return (env, s1) \<Longrightarrow> quiet s s1"
  by (auto simp: GetJniEnv_def quiet_def emit_def app_creations_def cond_signals_def
      split: if_splits option.splits)

lemma and_then_wait_ReturnE:
  assumes "and_then_wait m f = Some (Return y)"
  obtains x where "m = Some (Return x)" and "f x = Some (Return y)"
  using assms by (auto simp: and_then_wait_def split: option.splits outcome.splits)

lemma InitializeFirebase_again:
  "g_app s \<noteq> 0 \<Longrightarrow> InitializeFirebase self fb s = Some (Return s)"
  by (simp add: InitializeFirebase_def)

lemma InitializeFirebase_first:
  assumes "InitializeFirebase self fb s = Some (Return s')" and "g_app s = 0"
  shows "g_app s' \<noteq> 0 \<and> g_initialized s' = g_initialized s \<and>
     g_init_mutex s' = g_init_mutex s \<and> g_main_thread s' = g_main_thread s \<and>
     app_creations (trace s') = app_creations (trace s) + 1 \<and>
     cond_signals (trace s') = cond_signals (trace s)"
  using assms
  apply (simp add: InitializeFirebase_def)
  apply (elim and_then_wait_ReturnE)
  apply (auto simp: Let_def split: if_splits elim!: and_then_wait_ReturnE
      dest!: quiet_LogMessage quiet_WaitForFutureCompletion quiet_GetJniEnv)
      apply (simp_all add: quiet_def emit_def app_creations_def cond_signals_def)
  done

lemma nativeInit_returns:
  assumes "nativeInit self env act r s = Some (Return s')"
  shows "g_initialized s' \<and> g_app s' \<noteq> 0 \<and> g_init_mutex s' = None \<and>
     cond_signals (trace s') = cond_signals (trace s) + 1 \<and>
     app_creations (trace s') = app_creations (trace s) + (if g_app s = 0 then 1 else 0) \<and>
     last (trace s') = Cond_signal"
proof -
  from assms obtain s1 s2 s3 where
    l1: "LogMessage self ''Early init called.'' [] (jni_called r) s = Return s1" and
    i: "InitializeFirebase self (firebase r) (s1\<lparr>g_jni_env := env, g_activity := act\<rparr>) =
          Some (Return s2)" and
    m: "g_init_mutex s2 = None" and
    l3: "LogMessage self ''Early init complete'' [] (jni_complete r)
           (s2\<lparr>g_initialized := True, g_init_mutex := None, g_jni_env := 0, g_activity := 0\<rparr>) =
         Return s3" and
    s': "s' = emit Cond_signal s3"
    unfolding nativeInit_def
    by (elim and_then_wait_ReturnE)
       (auto simp: Let_def split: option.splits elim!: and_then_wait_ReturnE)
  let ?s1 = "s1\<lparr>g_jni_env := env, g_activity := act\<rparr>"
  let ?s2 = "s2\<lparr>g_initialized := True, g_init_mutex := None, g_jni_env := 0, g_activity := 0\<rparr>"
  have q1: "quiet s ?s1"
    using quiet_LogMessage [OF l1] by (simp add: quiet_def)
  have q3: "quiet ?s2 s3"
    by (rule quiet_LogMessage [OF l3])
  have i2: "g_app s2 \<noteq> 0 \<and>
     app_creations (trace s2) = app_creations (trace ?s1) + (if g_app s = 0 then 1 else 0) \<and>
     cond_signals (trace s2) = cond_signals (trace ?s1)"
  proof (cases "g_app s = 0")
    case True
    then have "g_app ?s1 = 0" using q1 by (simp add: quiet_def)
    from InitializeFirebase_first [OF i this] True show ?thesis by simp
  next
    case False
    then have "g_app ?s1 \<noteq> 0" using q1 by (simp add: quiet_def)
    from InitializeFirebase_again [OF this, of self "firebase r"] i False this
    show ?thesis by simp
  qed
  show ?thesis
    using q1 q3 i2 s'
    by (simp add: quiet_def emit_def cond_signals_def app_creations_def)
qed

lemma nativeInit_calls_returns:
  "nativeInit_calls self calls s = Some (Return s') \<Longrightarrow>
   (calls \<noteq> [] \<longrightarrow> g_initialized s' \<and> g_app s' \<noteq> 0) \<and>
   cond_signals (trace s') = cond_signals (trace s) + length calls \<and>
   app_creations (trace s') =
     app_creations (trace s) + (if g_app s = 0 \<and> calls \<noteq> [] then 1 else 0)"
proof (induction calls arbitrary: s)
  case Nil
  then show ?case by simp
next
  case (Cons c calls)
  obtain env act r where c: "c = (env, act, r)"
    by (cases c)
  from Cons.prems c obtain s1 where
    n: "nativeInit self env act r s = Some (Return s1)" and
    rest: "nativeInit_calls self calls s1 = Some (Return s')"
    by (auto elim!: and_then_wait_ReturnE)
  note a = nativeInit_returns [OF n]
  note b = Cons.IH [OF rest]
  show ?case
  proof (cases calls)
    case Nil
    with rest have "s' = s1" by simp
    with a Nil show ?thesis by simp
  next
    case (Cons d ds)
    with a b show ?thesis by simp
  qed
qed

lemma nativeInit_again:
  assumes "g_main_thread s \<noteq> self" and "g_app s \<noteq> 0" and "g_init_mutex s = None"
  shows "nativeInit self env act r s =
    Some (Return (s\<lparr>g_initialized := True, g_jni_env := 0, g_activity := 0,
      trace := trace s @ [Android_log ''Early init called.'' [],
                          Android_log ''Early init complete'' [], Cond_signal]\<rparr>))"
  using assms
  by (simp add: nativeInit_def LogMessage_def emit_def Let_def InitializeFirebase_def
      and_then_wait_def)

lemma wait_loop_initialized:
  "g_initialized s \<Longrightarrow> android_main_wait_loop self rounds s = Some s"
  by (cases rounds) simp_all

lemma wait_loop_sees_early_init:
  assumes "\<not> g_initialized s" and "\<not> fst (ProcessEvents self 10 (init_poll t) s)"
    and "early_init t"
  shows "\<exists>s'. android_main_wait_loop self (t # ts) s = Some s' \<and> g_initialized s'"
  using assms
  by (auto simp: wait_loop_initialized split: prod.splits)

lemma ProcessEvents_off_main:
  "g_main_thread s \<noteq> self \<Longrightarrow>
   ProcessEvents self msec poll s =
     (g_destroy_requested s \<or> g_restarted s, s\<lparr>trace := trace s @ [Usleep (1000 * msec)]\<rparr>)"
  by (simp add: ProcessEvents_def emit_def Let_def)

lemma WaitForFutureCompletion_loop_settles:
  assumes "g_main_thread s \<noteq> self"
    and "\<exists>t \<in> set rounds. tick_status t \<noteq> kFutureStatusPending"
  shows "\<exists>s'. WaitForFutureCompletion_loop self rounds s = Some s'"
  using assms
proof (induction rounds arbitrary: s)
  case Nil
  then show ?case by simp
next
  case (Cons a rounds)
  let ?s1 = "s\<lparr>trace := trace s @ [Usleep (1000 * 1000)]\<rparr>"
  note pe = ProcessEvents_off_main [OF Cons.prems(1), of 1000 "tick_poll a"]
  show ?case
  proof (cases "(g_destroy_requested s \<or> g_restarted s) \<or> tick_status a \<noteq> kFutureStatusPending")
    case True
    with pe show ?thesis by auto
  next
    case False
    with Cons.prems(2) have e: "\<exists>t \<in> set rounds. tick_status t \<noteq> kFutureStatusPending"
      by auto
    have m: "g_main_thread ?s1 \<noteq> self"
      using Cons.prems(1) by simp
    from Cons.IH [OF m e] pe False show ?thesis by auto
  qed
qed

lemma WaitForFutureCompletion_settles:
  assumes "g_main_thread s \<noteq> self"
    and "\<exists>t \<in> set rounds. tick_status t \<noteq> kFutureStatusPending"
  shows "\<exists>s'. WaitForFutureCompletion self fut rounds jni s = Some (Return s')"
proof -
  from WaitForFutureCompletion_loop_settles [OF assms] obtain s1 where
    l: "WaitForFutureCompletion_loop self rounds s = Some s1"
    by blast
  from quiet_WaitForFutureCompletion_loop [OF l] assms(1) have "g_main_thread s1 \<noteq> self"
    by (simp add: quiet_def)
  then have "LogMessage self fmt args jni s1 = Return (emit (Android_log fmt args) s1)" for fmt args
    by (simp add: LogMessage_off_screen)
  then show ?thesis
    using l by (simp add: WaitForFutureCompletion_def)
qed

lemma InitializeFirebase_settles:
  assumes m: "g_main_thread s \<noteq> self" and c: "created_app fb \<noteq> 0"
    and i: "\<exists>t \<in> set (ticks (initialize_result fb)). tick_status t \<noteq> kFutureStatusPending"
    and h: "\<exists>t \<in> set (ticks (show_result fb)). tick_status t \<noteq> kFutureStatusPending"
  shows "\<exists>s'. InitializeFirebase self fb s = Some (Return s')"
proof (cases "g_app s = 0")
  case False
  then show ?thesis by (simp add: InitializeFirebase_def)
next
  case True
  have lm: "LogMessage self fmt args jni x = Return (emit (Android_log fmt args) x)"
    if "g_main_thread x = g_main_thread s" for fmt args jni x
    using that m by (simp add: LogMessage_off_screen)
  let ?s4 = "emit (Android_log ''Creating the BannerView.'' [])
      ((emit (Admob_initialize (created_app fb))
         (emit (Android_log ''Initializing the AdMob with Firebase API.'' [])
           (emit (Android_log ''Created the Firebase App %x.'' [Arg_int (of_nat (created_app fb))])
             ((emit (App_create (g_jni_env s) (g_activity s)) s)\<lparr>g_app := created_app fb\<rparr>))))
        \<lparr>g_request := fill_request (g_request s)\<rparr>)"
  let ?s5 = "emit Banner_set_listener
      ((emit (Banner_view_new (created_banner fb)) ?s4)\<lparr>g_banner := created_banner fb\<rparr>)"
  let ?w1 = "emit (Banner_initialize (g_activity s) kBannerAdUnit
      \<lparr>ad_size_type = kAdSizeStandard, width = kBannerWidth, height = kBannerHeight\<rparr>) ?s5"
  have "g_main_thread ?w1 \<noteq> self"
    using m by (simp add: emit_def)
  from WaitForFutureCompletion_settles [OF this i] obtain s6 where
    w1: "WaitForFutureCompletion self (future (initialize_result fb)) (ticks (initialize_result fb))
           (failed_jni (initialize_result fb)) ?w1 = Some (Return s6)"
    by blast
  from quiet_WaitForFutureCompletion [OF w1] have m6: "g_main_thread s6 = g_main_thread s"
    by (simp add: quiet_def emit_def)
  let ?w2 = "emit Banner_show (emit (Android_log ''Showing the banner ad.'' []) s6)"
  have "g_main_thread ?w2 \<noteq> self"
    using m m6 by (simp add: emit_def)
  from WaitForFutureCompletion_settles [OF this h] obtain s8 where
    w2: "WaitForFutureCompletion self (future (show_result fb)) (ticks (show_result fb))
           (failed_jni (show_result fb)) ?w2 = Some (Return s8)"
    by blast
  from quiet_WaitForFutureCompletion [OF w2] m6 have m8: "g_main_thread s8 = g_main_thread s"
    by (simp add: quiet_def emit_def)
  show ?thesis
    using True m c w1 w2 m6 m8
    by (simp add: InitializeFirebase_def and_then_wait_def GetJniEnv_def GetActivity_def
        GetWindowContext_def lm emit_def Let_def)
qed

lemma nativeInit_settles:
  assumes m: "g_main_thread s \<noteq> self" and mu: "g_init_mutex s = None"
    and c: "created_app (firebase r) \<noteq> 0"
    and i: "\<exists>t \<in> set (ticks (initialize_result (firebase r))). tick_status t \<noteq> kFutureStatusPending"
    and h: "\<exists>t \<in> set (ticks (show_result (firebase r))). tick_status t \<noteq> kFutureStatusPending"
  shows "\<exists>s'. nativeInit self env act r s = Some (Return s')"
proof -
  let ?s1 = "(emit (Android_log ''Early init called.'' []) s)\<lparr>g_jni_env := env, g_activity := act\<rparr>"
  have m1: "g_main_thread ?s1 \<noteq> self"
    using m by (simp add: emit_def)
  from InitializeFirebase_settles [OF m1 c i h] obtain s2 where
    f: "InitializeFirebase self (firebase r) ?s1 = Some (Return s2)"
    by blast
  have k: "g_init_mutex s2 = None \<and> g_main_thread s2 \<noteq> self"
  proof (cases "g_app ?s1 = 0")
    case True
    from InitializeFirebase_first [OF f True] m mu show ?thesis
      by (simp add: emit_def)
  next
    case False
    from InitializeFirebase_again [OF False, of self "firebase r"] f m mu show ?thesis
      by (auto simp: emit_def)
  qed
  show ?thesis
    using m f k
    by (simp add: nativeInit_def and_then_wait_def LogMessage_off_screen emit_def)
qed

text \<open>
  The early-init entry point, call by call.  The one-time initialisation is guarded by
  the application handle: with \<^verbatim>\<open>g_app\<close> set, \<^verbatim>\<open>InitializeFirebase\<close> returns at once
  and changes nothing.  For every sequence of calls of the entry point that return:
  \<^verbatim>\<open>g_initialized\<close> is set afterwards, the condition is signalled once per call, as the
  last step of the call, and \<^verbatim>\<open>App::Create\<close> is called once if the handle was null
  before the first call and not at all otherwise.  A repeated call from the thread of the
  managed runtime (the handle exists, \<^verbatim>\<open>g_init_mutex\<close> is free) returns, having set the
  flag again, written its two log lines and signalled; no other global differs but the
  two transient handles, which are null as after every call.  A call from that thread
  returns whenever the SDK hands out an application and both futures of the banner leave
  the pending state.  A wait that finds the flag set leaves its loop at once, and a wait
  in whose round the entry point sets the flag leaves it right after that round.
\<close>

theorem nativeInit_idempotent:
  "(g_app s \<noteq> 0 \<longrightarrow> InitializeFirebase self fb s = Some (Return s)) \<and>
   (nativeInit_calls self calls s = Some (Return s') \<longrightarrow>
      (calls \<noteq> [] \<longrightarrow> g_initialized s' \<and> g_app s' \<noteq> 0) \<and>
      cond_signals (trace s') = cond_signals (trace s) + length calls \<and>
      app_creations (trace s') =
        app_creations (trace s) + (if g_app s = 0 \<and> calls \<noteq> [] then 1 else 0)) \<and>
   (nativeInit self env act r s = Some (Return s1) \<longrightarrow>
      g_initialized s1 \<and> last (trace s1) = Cond_signal) \<and>
   (g_main_thread s \<noteq> self \<and> g_app s \<noteq> 0 \<and> g_init_mutex s = None \<longrightarrow>
      nativeInit self env act r s =
        Some (Return (s\<lparr>g_initialized := True, g_jni_env := 0, g_activity := 0,
          trace := trace s @ [Android_log ''Early init called.'' [],
                              Android_log ''Early init complete'' [], Cond_signal]\<rparr>))) \<and>
   (g_main_thread s \<noteq> self \<and> g_init_mutex s = None \<and> created_app (firebase r) \<noteq> 0 \<and>
    (\<exists>w \<in> set (ticks (initialize_result (firebase r))). tick_status w \<noteq> kFutureStatusPending) \<and>
    (\<exists>w \<in> set (ticks (show_result (firebase r))). tick_status w \<noteq> kFutureStatusPending) \<longrightarrow>
      (\<exists>s3. nativeInit self env act r s = Some (Return s3))) \<and>
   (g_initialized s \<longrightarrow> android_main_wait_loop self rounds s = Some s) \<and>
   (\<not> g_initialized s \<and> \<not> fst (ProcessEvents self 10 (init_poll t) s) \<and> early_init t \<longrightarrow>
      (\<exists>s2. android_main_wait_loop self (t # ts) s = Some s2 \<and> g_initialized s2))"
proof -
  have "g_app s \<noteq> 0 \<longrightarrow> InitializeFirebase self fb s = Some (Return s)"
    using InitializeFirebase_again [of s self fb] by blast
  moreover have "nativeInit_calls self calls s = Some (Return s') \<longrightarrow>
      (calls \<noteq> [] \<longrightarrow> g_initialized s' \<and> g_app s' \<noteq> 0) \<and>
      cond_signals (trace s') = cond_signals (trace s) + length calls \<and>
      app_creations (trace s') =
        app_creations (trace s) + (if g_app s = 0 \<and> calls \<noteq> [] then 1 else 0)"
    using nativeInit_calls_returns [of self calls s s'] by blast
  moreover have "nativeInit self env act r s = Some (Return s1) \<longrightarrow>
      g_initialized s1 \<and> last (trace s1) = Cond_signal"
    using nativeInit_returns [of self env act r s s1] by blast
  moreover have "g_main_thread s \<noteq> self \<and> g_app s \<noteq> 0 \<and> g_init_mutex s = None \<longrightarrow>
      nativeInit self env act r s =
        Some (Return (s\<lparr>g_initialized := True, g_jni_env := 0, g_activity := 0,
          trace := trace s @ [Android_log ''Early init called.'' [],
                              Android_log ''Early init complete'' [], Cond_signal]\<rparr>))"
    using nativeInit_again [of s self env act r] by blast
  moreover have "g_main_thread s \<noteq> self \<and> g_init_mutex s = None \<and>
    created_app (firebase r) \<noteq> 0 \<and>
    (\<exists>w \<in> set (ticks (initialize_result (firebase r))). tick_status w \<noteq> kFutureStatusPending) \<and>
    (\<exists>w \<in> set (ticks (show_result (firebase r))). tick_status w \<noteq> kFutureStatusPending) \<longrightarrow>
      (\<exists>s3. nativeInit self env act r s = Some (Return s3))"
    using nativeInit_settles [of s self r env act] by blast
  moreover have "g_initialized s \<longrightarrow> android_main_wait_loop self rounds s = Some s"
    using wait_loop_initialized [of s self rounds] by blast
  moreover have "\<not> g_initialized s \<and> \<not> fst (ProcessEvents self 10 (init_poll t) s) \<and>
      early_init t \<longrightarrow>
      (\<exists>s2. android_main_wait_loop self (t # ts) s = Some s2 \<and> g_initialized s2)"
    using wait_loop_sees_early_init [of s self t ts] by blast
  ultimately show ?thesis by blast
qed

theorem nativeInit_idempotent_witness:
  "\<exists>s'. nativeInit_calls 8 [(5, 4, sample_init), (6, 4, sample_init)] process_start =
           Some (Return s') \<and>
        g_initialized s' \<and> cond_signals (trace s') = 2 \<and> app_creations (trace s') = 1"
proof -
  obtain s' where
    run: "nativeInit_calls 8 [(5, 4, sample_init), (6, 4, sample_init)] process_start =
            Some (Return s')"
    by (auto simp: nativeInit_def sample_init_def process_start_def LogMessage_def emit_def
        Let_def InitializeFirebase_def and_then_wait_def GetJniEnv_def GetActivity_def
        GetWindowContext_def WaitForFutureCompletion_def ProcessEvents_def kAdMobErrorNone_def)
  have "g_app process_start = 0" and "trace process_start = []"
    by (simp_all add: process_start_def)
  with run
    nativeInit_idempotent [where s = process_start and self = 8 and s' = s'
      and calls = "[(5, 4, sample_init), (6, 4, sample_init)]"]
  show ?thesis
    by (auto simp: cond_signals_def app_creations_def)
qed

subsection \<open>A wake-up that is lost\<close>

lemma ProcessEvents_no_destroy:
  assumes "\<not> g_destroy_requested s"
    and "\<forall>source. outData poll = Some source \<longrightarrow> APP_CMD_DESTROY \<notin> set (cmds source)"
  shows "\<not> g_destroy_requested (snd (ProcessEvents self msec poll s))"
  using assms
  by (simp add: ProcessEvents_def emit_def Let_def source_process_def fold_OnAppCmd
      split: option.splits)

lemma wait_loop_runs_on:
  assumes "\<not> g_initialized s" and "\<not> g_destroy_requested s" and "\<not> g_restarted s"
    and "\<forall>t \<in> set rounds. \<not> early_init t \<and>
           (\<forall>source. outData (init_poll t) = Some source \<longrightarrow> APP_CMD_DESTROY \<notin> set (cmds source))"
  shows "android_main_wait_loop self rounds s = None"
  using assms
proof (induction rounds arbitrary: s)
  case Nil
  then show ?case by simp
next
  case (Cons a rounds)
  obtain r s1 where pe: "ProcessEvents self 10 (init_poll a) s = (r, s1)"
    by (cases "ProcessEvents self 10 (init_poll a) s")
  have d: "\<not> g_destroy_requested s1"
    using ProcessEvents_no_destroy [OF Cons.prems(2), of "init_poll a" self 10] Cons.prems(4) pe
    by simp
  have f: "g_initialized s1 = g_initialized s" "g_restarted s1 = g_restarted s"
    using ProcessEvents_fields(9,3) [of self 10 "init_poll a" s] pe by simp_all
  have r: "\<not> r"
    using ProcessEvents_result [of self 10 "init_poll a" s] pe d Cons.prems(3) by simp
  let ?s2 = "(emit (Cond_timedwait (time_to_wait_for (init_clock a))) s1)
               \<lparr>g_initialized := (g_initialized s1 \<or> early_init a)\<rparr>"
  have p: "\<not> g_initialized ?s2" "\<not> g_destroy_requested ?s2" "\<not> g_restarted ?s2"
    "\<forall>t \<in> set rounds. \<not> early_init t \<and>
       (\<forall>source. outData (init_poll t) = Some source \<longrightarrow> APP_CMD_DESTROY \<notin> set (cmds source))"
    using Cons.prems f d by (simp_all add: emit_def)
  from Cons.IH [OF p] Cons.prems(1) pe r show ?case by simp
qed

lemma android_main_finish_returned:
  assumes "android_main_finish self state poll vm s = Return s'"
  shows "\<not> g_initialized s' \<and> \<not> g_restarted s' \<and> \<not> g_started s' \<and> g_started_mutex s' = None \<and>
         g_init_mutex s' = g_init_mutex s"
proof -
  obtain r s1 where pe: "ProcessEvents self 10 poll s = (r, s1)"
    by (cases "ProcessEvents self 10 poll s")
  have f: "g_init_mutex s1 = g_init_mutex s"
    using ProcessEvents_fields(7) [of self 10 poll s] pe by simp
  show ?thesis
    using assms pe f
    by (auto simp: android_main_finish_def and_then_def LoggingUtilsData_destructor_def
        GetJniEnv_def emit_def Let_def split: option.splits if_splits outcome.splits)
qed

text \<open>
  C4.  The wake-up of a call of the early-init entry point is lost when the session
  before is still ending.  The call returns, having set \<^verbatim>\<open>g_initialized\<close> and
  signalled the condition.  Then the last part of the running session clears
  \<^verbatim>\<open>g_initialized\<close> (line 370): the flag is set (lines 64 to 66) and tested (lines 323
  to 339) with \<^verbatim>\<open>g_init_mutex\<close> locked, and cleared without it.  Then the next session
  takes the gate, saves its state, creates its log view and waits for the flag, with
  \<^verbatim>\<open>g_init_mutex\<close> free for it.  As long as no further call of the entry point sets the
  flag and the looper hands over no destroy command, this wait goes on, for every number
  of rounds, although the call it waits for has completed; the comment of line 322 says
  that the loop waits for \<^verbatim>\<open>nativeInit()\<close> to complete.
\<close>

theorem nativeInit_wakeup_lost:
  assumes "nativeInit ui env act r s = Some (Return s1)"
    and "android_main_finish old state poll vm s1 = Return s2"
    and "android_main_lock_started new s2 = Some s3"
    and "log_display_up (android_main_save_state state' s3) s4"
    and "\<forall>t \<in> set rounds. \<not> early_init t \<and>
           (\<forall>source. outData (init_poll t) = Some source \<longrightarrow> APP_CMD_DESTROY \<notin> set (cmds source))"
  shows "g_initialized s1 \<and> last (trace s1) = Cond_signal \<and> \<not> g_initialized s2 \<and>
         g_main_thread s4 = new \<and> g_init_mutex s4 = None \<and>
         android_main_wait new rounds s4 = None"
proof -
  note n = nativeInit_returns [OF assms(1)]
  note f = android_main_finish_returned [OF assms(2)]
  have s3: "s3 = s2\<lparr>g_started_mutex := Some new, g_main_thread := new, g_started := True\<rparr>"
    using assms(3) f by (simp add: android_main_lock_started_def)
  let ?s4 = "s4\<lparr>g_init_mutex := Some new\<rparr>"
  have p: "\<not> g_initialized ?s4" "\<not> g_destroy_requested ?s4" "\<not> g_restarted ?s4"
    using assms(4) f s3 by (simp_all add: log_display_up_def android_main_save_state_def)
  have m: "g_init_mutex s4 = None" "g_main_thread s4 = new"
    using assms(4) f n s3 by (simp_all add: log_display_up_def android_main_save_state_def)
  from wait_loop_runs_on [OF p assms(5), of new] m n f show ?thesis
    by (simp add: android_main_wait_def)
qed

text \<open>
  The flow from the start of the process.  The first activity is created: the entry point
  initialises Firebase, and the session of thread 7 finds the flag set.  A second
  activity is created while this session runs: its \<^verbatim>\<open>android_main\<close> finds
  \<^verbatim>\<open>g_started\<close> set, sets \<^verbatim>\<open>g_restarted\<close> (line 294) and blocks at line 296, and its
  call of the entry point returns at once, the application handle being there.  The
  session of thread 7 ends; thread 9 goes on and waits, round after round.
\<close>

theorem nativeInit_wakeup_lost_witness:
  "\<exists>s0 s1 s2 s3 s4 s5 s6.
     nativeInit 8 5 4 sample_init process_start = Some (Return s0) \<and>
     android_main_lock_started 7 s0 = Some s1 \<and>
     android_main_wait 7 []
       ((android_main_save_state \<lparr>activity = \<lparr>clazz = 3\<rparr>, onAppCmd = False\<rparr> s1)
          \<lparr>g_logging_utils_data := Some \<lparr>logging_utils_class = 11,
             logging_utils_add_log_text = 12, logging_utils_init_log_window = 13\<rparr>\<rparr>) = Some s2 \<and>
     g_started s2 \<and>
     nativeInit 8 6 4 sample_init (s2\<lparr>g_restarted := True\<rparr>) = Some (Return s3) \<and>
     g_initialized s3 \<and> last (trace s3) = Cond_signal \<and>
     android_main_finish 7 \<lparr>activity = \<lparr>clazz = 3\<rparr>, onAppCmd = False\<rparr>
       \<lparr>looperId = - 3, outData = None\<rparr> \<lparr>attach_result = 0, attach_env = 9\<rparr> s3 = Return s4 \<and>
     \<not> g_initialized s4 \<and>
     android_main_lock_started 9 s4 = Some s5 \<and>
     android_main_wait 9
       [\<lparr>init_poll = \<lparr>looperId = - 3, outData = None\<rparr>,
          init_clock = \<lparr>tv_sec = 5, tv_nsec = 0\<rparr>, early_init = False\<rparr>,
        \<lparr>init_poll = \<lparr>looperId = 2, outData = Some (Poll_source [])\<rparr>,
          init_clock = \<lparr>tv_sec = 5, tv_nsec = 20000000\<rparr>, early_init = False\<rparr>,
        \<lparr>init_poll = \<lparr>looperId = - 3, outData = None\<rparr>,
          init_clock = \<lparr>tv_sec = 5, tv_nsec = 40000000\<rparr>, early_init = False\<rparr>]
       ((android_main_save_state \<lparr>activity = \<lparr>clazz = 6\<rparr>, onAppCmd = False\<rparr> s5)
          \<lparr>g_logging_utils_data := Some \<lparr>logging_utils_class = 14,
             logging_utils_add_log_text = 15, logging_utils_init_log_window = 16\<rparr>\<rparr>) = None"
proof -
  let ?app = "\<lparr>activity = \<lparr>clazz = 3\<rparr>, onAppCmd = False\<rparr>"
  let ?app' = "\<lparr>activity = \<lparr>clazz = 6\<rparr>, onAppCmd = False\<rparr>"
  let ?d = "\<lparr>logging_utils_class = 11,
             logging_utils_add_log_text = 12, logging_utils_init_log_window = 13\<rparr>"
  let ?d' = "\<lparr>logging_utils_class = 14,
             logging_utils_add_log_text = 15, logging_utils_init_log_window = 16\<rparr>"
  let ?rounds = "[\<lparr>init_poll = \<lparr>looperId = - 3, outData = None\<rparr>,
          init_clock = \<lparr>tv_sec = 5, tv_nsec = 0\<rparr>, early_init = False\<rparr>,
        \<lparr>init_poll = \<lparr>looperId = 2, outData = Some (Poll_source [])\<rparr>,
          init_clock = \<lparr>tv_sec = 5, tv_nsec = 20000000\<rparr>, early_init = False\<rparr>,
        \<lparr>init_poll = \<lparr>looperId = - 3, outData = None\<rparr>,
          init_clock = \<lparr>tv_sec = 5, tv_nsec = 40000000\<rparr>, early_init = False\<rparr>]"
  obtain s0 where
    n0: "nativeInit 8 5 4 sample_init process_start = Some (Return s0)" and
    k0: "g_started_mutex s0 = None" "g_main_thread s0 = 0"
    by (auto simp: nativeInit_def sample_init_def process_start_def LogMessage_def emit_def
        Let_def InitializeFirebase_def and_then_wait_def GetJniEnv_def GetActivity_def
        GetWindowContext_def WaitForFutureCompletion_def ProcessEvents_def kAdMobErrorNone_def)
  note r0 = nativeInit_returns [OF n0]
  let ?s1 = "s0\<lparr>g_started_mutex := Some 7, g_main_thread := 7, g_started := True\<rparr>"
  have l1: "android_main_lock_started 7 s0 = Some ?s1"
    using k0 by (simp add: android_main_lock_started_def)
  let ?w = "(android_main_save_state ?app ?s1)\<lparr>g_logging_utils_data := Some ?d\<rparr>"
  let ?s2 = "?w\<lparr>g_init_mutex := None\<rparr>"
  have w2: "android_main_wait 7 [] ?w = Some ?s2"
    using r0 by (simp add: android_main_wait_def android_main_save_state_def)
  have g2: "g_started ?s2"
    by (simp add: android_main_save_state_def)
  let ?e = "?s2\<lparr>g_restarted := True\<rparr>"
  have "g_main_thread ?e \<noteq> 8" "g_app ?e \<noteq> 0" "g_init_mutex ?e = None"
    using r0 by (simp_all add: android_main_save_state_def)
  from nativeInit_again [OF this, of 6 4 sample_init] obtain s3 where
    n3: "nativeInit 8 6 4 sample_init ?e = Some (Return s3)" and
    k3: "g_main_thread s3 = 7"
      "g_app_state s3 = Some (?app\<lparr>onAppCmd := True\<rparr>)" "g_logging_utils_data s3 = Some ?d"
    by (simp add: android_main_save_state_def)
  let ?vm = "\<lparr>attach_result = 0, attach_env = 9\<rparr>"
  have "g_logging_utils_data s3 = None \<or> attach_result ?vm = JNI_OK \<and> attach_env ?vm \<noteq> 0"
    by (simp add: JNI_OK_def)
  from android_main_finish_runs [OF k3(1,2) this, of ?app "\<lparr>looperId = - 3, outData = None\<rparr>"]
  obtain s4 where
    f4: "android_main_finish 7 ?app \<lparr>looperId = - 3, outData = None\<rparr> ?vm s3 = Return s4"
    by blast
  note r4 = android_main_finish_returned [OF f4]
  let ?s5 = "s4\<lparr>g_started_mutex := Some 9, g_main_thread := 9, g_started := True\<rparr>"
  have l5: "android_main_lock_started 9 s4 = Some ?s5"
    using r4 by (simp add: android_main_lock_started_def)
  let ?w' = "(android_main_save_state ?app' ?s5)\<lparr>g_logging_utils_data := Some ?d'\<rparr>"
  have up: "log_display_up (android_main_save_state ?app' ?s5) ?w'"
    by (simp add: log_display_up_def)
  have q: "\<forall>t \<in> set ?rounds. \<not> early_init t \<and>
      (\<forall>source. outData (init_poll t) = Some source \<longrightarrow> APP_CMD_DESTROY \<notin> set (cmds source))"
    by simp
  from nativeInit_wakeup_lost [OF n3 f4 l5 up q]
  have "g_initialized s3 \<and> last (trace s3) = Cond_signal \<and> \<not> g_initialized s4 \<and>
     android_main_wait 9 ?rounds ?w' = None"
    by blast
  with n0 l1 w2 g2 n3 f4 l5 show ?thesis
    by blast
qed

subsection \<open>The activity handle\<close>

lemma handles_kept_trans: "handles_kept s s1 \<Longrightarrow> handles_kept s1 s2 \<Longrightarrow> handles_kept s s2"
  by (simp add: handles_kept_def)

lemma handles_kept_ProcessEvents: "handles_kept s (snd (ProcessEvents self msec poll s))"
  by (simp add: handles_kept_def ProcessEvents_def emit_def Let_def source_process_def fold_OnAppCmd
      activity_uses_def split: option.splits)

lemma handles_kept_WaitForFutureCompletion_loop:
  "WaitForFutureCompletion_loop self rounds s = Some s' \<Longrightarrow> handles_kept s s'"
proof (induction rounds arbitrary: s)
  case Nil
  then show ?case by simp
next
  case (Cons t ts)
  obtain r s1 where pe: "ProcessEvents self 1000 (tick_poll t) s = (r, s1)"
    by (cases "ProcessEvents self 1000 (tick_poll t) s")
  have q: "handles_kept s s1"
    using handles_kept_ProcessEvents [of s self 1000 "tick_poll t"] pe by simp
  show ?case
  proof (cases "r \<or> tick_status t \<noteq> kFutureStatusPending")
    case True
    with Cons.prems pe have "s' = s1" by (auto split: if_splits)
    with q show ?thesis by simp
  next
    case False
    with Cons.prems pe have "WaitForFutureCompletion_loop self ts s1 = Some s'" by simp
    from Cons.IH [OF this] q show ?thesis by (rule handles_kept_trans [rotated])
  qed
qed

lemma handles_kept_LogMessage:
  "LogMessage self fmt args jni s = Return s' \<Longrightarrow> handles_kept s s'"
  by (auto simp: LogMessage_def AppendText_def CheckJNIException_def GetJniEnv_def and_then_def
      emit_def Let_def handles_kept_def activity_uses_def
      split: option.splits if_splits outcome.splits prod.splits)

lemma handles_kept_WaitForFutureCompletion:
  "WaitForFutureCompletion self fut rounds jni s = Some (Return s') \<Longrightarrow> handles_kept s s'"
  using handles_kept_WaitForFutureCompletion_loop handles_kept_LogMessage handles_kept_trans
  by (fastforce simp: WaitForFutureCompletion_def split: option.splits if_splits)

lemma handles_kept_GetJniEnv:
  "GetJniEnv self vm s = Return (env, s1) \<Longrightarrow> handles_kept s s1"
  by (auto simp: GetJniEnv_def handles_kept_def emit_def activity_uses_def
      split: if_splits option.splits)

lemma InitializeFirebase_uses:
  assumes "InitializeFirebase self fb s = Some (Return s')" and "g_app s = 0"
  shows "\<exists>env s1 act. GetJniEnv self (create_vm fb) s = Return (env, s1) \<and>
     GetActivity self s = Return act \<and>
     activity_uses (trace s') = activity_uses (trace s) @
       [App_create env act,
        Banner_initialize act kBannerAdUnit
          \<lparr>ad_size_type = kAdSizeStandard, width = kBannerWidth, height = kBannerHeight\<rparr>] \<and>
     g_main_thread s' = g_main_thread s \<and> g_app_state s' = g_app_state s \<and>
     g_jni_env s' = g_jni_env s \<and> g_activity s' = g_activity s"
  using assms
  apply (simp add: InitializeFirebase_def)
  apply (elim and_then_wait_ReturnE)
  apply (auto simp: Let_def split: if_splits elim!: and_then_wait_ReturnE
      dest!: handles_kept_LogMessage handles_kept_WaitForFutureCompletion handles_kept_GetJniEnv)
      apply (auto simp add: handles_kept_def emit_def activity_uses_def GetActivity_def
        GetWindowContext_def split: if_splits option.splits)
  done

lemma nativeInit_uses:
  assumes "nativeInit self env act r s = Some (Return s')" and "g_main_thread s \<noteq> self"
  shows "activity_uses (trace s') = activity_uses (trace s) @
       (if g_app s = 0
        then [App_create env act,
              Banner_initialize act kBannerAdUnit
                \<lparr>ad_size_type = kAdSizeStandard, width = kBannerWidth, height = kBannerHeight\<rparr>]
        else []) \<and>
     g_main_thread s' = g_main_thread s \<and> g_jni_env s' = 0 \<and> g_activity s' = 0"
proof -
  from assms(1) obtain s1 s2 s3 where
    l1: "LogMessage self ''Early init called.'' [] (jni_called r) s = Return s1" and
    i: "InitializeFirebase self (firebase r) (s1\<lparr>g_jni_env := env, g_activity := act\<rparr>) =
          Some (Return s2)" and
    l3: "LogMessage self ''Early init complete'' [] (jni_complete r)
           (s2\<lparr>g_initialized := True, g_init_mutex := None, g_jni_env := 0, g_activity := 0\<rparr>) =
         Return s3" and
    s': "s' = emit Cond_signal s3"
    unfolding nativeInit_def
    by (elim and_then_wait_ReturnE)
       (auto simp: Let_def split: option.splits elim!: and_then_wait_ReturnE)
  let ?s1 = "s1\<lparr>g_jni_env := env, g_activity := act\<rparr>"
  let ?s2 = "s2\<lparr>g_initialized := True, g_init_mutex := None, g_jni_env := 0, g_activity := 0\<rparr>"
  note k1 = handles_kept_LogMessage [OF l1]
  note k3 = handles_kept_LogMessage [OF l3]
  have a1: "g_app s1 = g_app s"
    using quiet_LogMessage [OF l1] by (simp add: quiet_def)
  have m1: "g_main_thread ?s1 \<noteq> self"
    using k1 assms(2) by (simp add: handles_kept_def)
  have i2: "activity_uses (trace s2) = activity_uses (trace s) @
       (if g_app s = 0
        then [App_create env act,
              Banner_initialize act kBannerAdUnit
                \<lparr>ad_size_type = kAdSizeStandard, width = kBannerWidth, height = kBannerHeight\<rparr>]
        else []) \<and> g_main_thread s2 = g_main_thread s"
  proof (cases "g_app s = 0")
    case True
    then have "g_app ?s1 = 0" using a1 by simp
    from InitializeFirebase_uses [OF i this] m1 k1 True show ?thesis
      by (auto simp: GetJniEnv_def GetActivity_def handles_kept_def)
  next
    case False
    then have "g_app ?s1 \<noteq> 0" using a1 by simp
    from InitializeFirebase_again [OF this, of self "firebase r"] i k1 False
    show ?thesis by (auto simp: handles_kept_def)
  qed
  show ?thesis
    using i2 k3 s' by (simp add: handles_kept_def emit_def activity_uses_def)
qed

lemma InitializeFirebase_uses_main:
  assumes "InitializeFirebase self fb s = Some (Return s')" and "g_app s = 0"
    and "g_main_thread s = self" and "g_app_state s = Some app"
  shows "activity_uses (trace s') = activity_uses (trace s) @
       [App_create (if attach_result (create_vm fb) = JNI_OK then attach_env (create_vm fb) else 0)
          (clazz (activity app)),
        Banner_initialize (clazz (activity app)) kBannerAdUnit
          \<lparr>ad_size_type = kAdSizeStandard, width = kBannerWidth, height = kBannerHeight\<rparr>]"
  using InitializeFirebase_uses [OF assms(1,2)] assms(3,4)
  by (auto simp: GetJniEnv_def GetActivity_def)

text \<open>
  C8.  Called from a thread other than the main thread, \<^verbatim>\<open>GetActivity\<close> and
  \<^verbatim>\<open>GetWindowContext\<close> return \<^verbatim>\<open>g_activity\<close>, the transient handle of the early
  initialisation: the entry point records it from its argument (line 61), so the calls
  that \<^verbatim>\<open>InitializeFirebase\<close> makes during a call of the entry point hand this
  argument to \<^verbatim>\<open>App::Create\<close> and to \<^verbatim>\<open>BannerView::Initialize\<close>, and the entry point
  resets it (line 68), so that it is null again when the call has returned.  Called from
  the main thread they return the \<^verbatim>\<open>clazz\<close> of the activity of the current application
  state, which is the state that \<^verbatim>\<open>android_main\<close> saved at line 309; this is the handle
  the SDK receives when \<^verbatim>\<open>InitializeFirebase\<close> runs on the main thread.
\<close>

theorem GetActivity_by_thread:
  "(g_main_thread s \<noteq> self \<longrightarrow>
      GetActivity self s = Return (g_activity s) \<and>
      GetWindowContext self s = Return (g_activity s)) \<and>
   (g_main_thread s \<noteq> self \<longrightarrow> nativeInit self env act r s = Some (Return s') \<longrightarrow>
      activity_uses (trace s') = activity_uses (trace s) @
        (if g_app s = 0
         then [App_create env act,
               Banner_initialize act kBannerAdUnit
                 \<lparr>ad_size_type = kAdSizeStandard, width = kBannerWidth, height = kBannerHeight\<rparr>]
         else []) \<and>
      GetActivity self s' = Return 0 \<and> GetWindowContext self s' = Return 0) \<and>
   (g_main_thread s = self \<longrightarrow> g_app_state s = Some app \<longrightarrow>
      GetActivity self s = Return (clazz (activity app)) \<and>
      GetWindowContext self s = Return (clazz (activity app))) \<and>
   (g_main_thread s = self \<longrightarrow>
      GetActivity self (android_main_save_state state s) = Return (clazz (activity state)) \<and>
      GetWindowContext self (android_main_save_state state s) = Return (clazz (activity state))) \<and>
   (g_main_thread s = self \<longrightarrow> g_app_state s = Some app \<longrightarrow> g_app s = 0 \<longrightarrow>
    InitializeFirebase self fb s = Some (Return s2) \<longrightarrow>
      activity_uses (trace s2) = activity_uses (trace s) @
        [App_create (if attach_result (create_vm fb) = JNI_OK then attach_env (create_vm fb) else 0)
           (clazz (activity app)),
         Banner_initialize (clazz (activity app)) kBannerAdUnit
           \<lparr>ad_size_type = kAdSizeStandard, width = kBannerWidth, height = kBannerHeight\<rparr>])"
proof -
  have a: "g_main_thread s \<noteq> self \<longrightarrow>
      GetActivity self s = Return (g_activity s) \<and>
      GetWindowContext self s = Return (g_activity s)"
    by (simp add: GetActivity_def GetWindowContext_def)
  have b: "g_main_thread s \<noteq> self \<longrightarrow> nativeInit self env act r s = Some (Return s') \<longrightarrow>
      activity_uses (trace s') = activity_uses (trace s) @
        (if g_app s = 0
         then [App_create env act,
               Banner_initialize act kBannerAdUnit
                 \<lparr>ad_size_type = kAdSizeStandard, width = kBannerWidth, height = kBannerHeight\<rparr>]
         else []) \<and>
      GetActivity self s' = Return 0 \<and> GetWindowContext self s' = Return 0"
    using nativeInit_uses [of self env act r s s']
    by (simp add: GetActivity_def GetWindowContext_def)
  have c: "g_main_thread s = self \<longrightarrow> g_app_state s = Some app \<longrightarrow>
      GetActivity self s = Return (clazz (activity app)) \<and>
      GetWindowContext self s = Return (clazz (activity app))"
    by (simp add: GetActivity_def GetWindowContext_def)
  have d: "g_main_thread s = self \<longrightarrow>
      GetActivity self (android_main_save_state state s) = Return (clazz (activity state)) \<and>
      GetWindowContext self (android_main_save_state state s) = Return (clazz (activity state))"
    by (simp add: GetActivity_def GetWindowContext_def android_main_save_state_def)
  have e: "g_main_thread s = self \<longrightarrow> g_app_state s = Some app \<longrightarrow> g_app s = 0 \<longrightarrow>
    InitializeFirebase self fb s = Some (Return s2) \<longrightarrow>
      activity_uses (trace s2) = activity_uses (trace s) @
        [App_create (if attach_result (create_vm fb) = JNI_OK then attach_env (create_vm fb) else 0)
           (clazz (activity app)),
         Banner_initialize (clazz (activity app)) kBannerAdUnit
           \<lparr>ad_size_type = kAdSizeStandard, width = kBannerWidth, height = kBannerHeight\<rparr>]"
    using InitializeFirebase_uses_main [of self fb s s2 app] by blast
  show ?thesis
    by (intro conjI) (rule a, rule b, rule c, rule d, rule e)
qed

theorem GetActivity_by_thread_witness:
  "\<exists>s' s2. nativeInit 8 5 4 sample_init process_start = Some (Return s') \<and>
     activity_uses (trace s') =
       [App_create 5 4,
        Banner_initialize 4 kBannerAdUnit
          \<lparr>ad_size_type = kAdSizeStandard, width = kBannerWidth, height = kBannerHeight\<rparr>] \<and>
     GetActivity 8 s' = Return 0 \<and>
     GetWindowContext 7
       (android_main_save_state \<lparr>activity = \<lparr>clazz = 3\<rparr>, onAppCmd = False\<rparr>
          (process_start\<lparr>g_main_thread := 7\<rparr>)) = Return 3 \<and>
     InitializeFirebase 7 (firebase sample_init)
       (android_main_save_state \<lparr>activity = \<lparr>clazz = 3\<rparr>, onAppCmd = False\<rparr>
          (process_start\<lparr>g_main_thread := 7\<rparr>)) = Some (Return s2) \<and>
     activity_uses (trace s2) =
       [App_create 9 3,
        Banner_initialize 3 kBannerAdUnit
          \<lparr>ad_size_type = kAdSizeStandard, width = kBannerWidth, height = kBannerHeight\<rparr>]"
proof -
  have m: "g_main_thread process_start \<noteq> 8" "g_init_mutex process_start = None"
    "created_app (firebase sample_init) \<noteq> 0"
    "\<exists>w \<in> set (ticks (initialize_result (firebase sample_init))). tick_status w \<noteq> kFutureStatusPending"
    "\<exists>w \<in> set (ticks (show_result (firebase sample_init))). tick_status w \<noteq> kFutureStatusPending"
    by (simp_all add: process_start_def sample_init_def)
  from nativeInit_settles [OF m, of 5 4] obtain s' where
    n: "nativeInit 8 5 4 sample_init process_start = Some (Return s')"
    by blast
  have e: "g_app process_start = 0" "activity_uses (trace process_start) = []"
    by (simp_all add: process_start_def activity_uses_def)
  let ?app = "\<lparr>activity = \<lparr>clazz = 3\<rparr>, onAppCmd = False\<rparr>"
  let ?m = "android_main_save_state ?app (process_start\<lparr>g_main_thread := 7\<rparr>)"
  obtain s2 where
    i: "InitializeFirebase 7 (firebase sample_init) ?m = Some (Return s2)"
    by (auto simp: sample_init_def process_start_def android_main_save_state_def LogMessage_def
        emit_def Let_def InitializeFirebase_def and_then_wait_def GetJniEnv_def GetActivity_def
        GetWindowContext_def WaitForFutureCompletion_def ProcessEvents_def kAdMobErrorNone_def
        JNI_OK_def)
  have h: "g_main_thread ?m = 7" "g_app_state ?m = Some (?app\<lparr>onAppCmd := True\<rparr>)" "g_app ?m = 0"
    "activity_uses (trace ?m) = []"
    "attach_result (create_vm (firebase sample_init)) = JNI_OK"
    "attach_env (create_vm (firebase sample_init)) = 9"
    by (simp_all add: android_main_save_state_def process_start_def activity_uses_def
        sample_init_def JNI_OK_def)
  have "g_main_thread (process_start\<lparr>g_main_thread := 7\<rparr>) = 7"
    by simp
  with n m(1) e i h
    GetActivity_by_thread [where s = process_start and self = 8 and env = 5 and act = 4
      and r = sample_init and s' = s']
    GetActivity_by_thread [where s = "process_start\<lparr>g_main_thread := 7\<rparr>" and self = 7
      and state = ?app]
    GetActivity_by_thread [where s = ?m and self = 7 and app = "?app\<lparr>onAppCmd := True\<rparr>"
      and fb = "firebase sample_init" and ?s2.0 = s2]
  show ?thesis
    by auto
qed

subsection \<open>Threads that enter \<^verbatim>\<open>android_main\<close>\<close>

lemma thread_step_pcs_other:
  "thread_step t c = Some c' \<Longrightarrow> u \<noteq> t \<Longrightarrow> pcs c' u = pcs c u"
  by (cases "pcs c t") (auto simp: thread_step_def split: option.splits)

lemma thread_step_saw:
  "thread_step t c = Some c' \<Longrightarrow>
   saw_started c' u =
     (if u = t \<and> pcs c t = At_entry then Some (g_started (shared c)) else saw_started c u)"
  by (cases "pcs c t") (auto simp: thread_step_def split: option.splits)

text \<open>What one step of a thread does to its own place, to the mutex and to \<^verbatim>\<open>g_started\<close>.\<close>

lemma thread_step_self:
  assumes "thread_step t c = Some c'"
  shows
   "(pcs c t = At_entry \<and> pcs c' t = (if g_started (shared c) then Set_restarted else Init_mutex) \<and>
       g_started_mutex (shared c') = g_started_mutex (shared c) \<and> g_started (shared c') = g_started (shared c)) \<or>
    (pcs c t = Set_restarted \<and> pcs c' t = Wait_lock \<and>
       g_started_mutex (shared c') = g_started_mutex (shared c) \<and> g_started (shared c') = g_started (shared c)) \<or>
    (pcs c t = Wait_lock \<and> pcs c' t = Wait_unlock \<and> g_started_mutex (shared c) = None \<and>
       g_started_mutex (shared c') = Some t \<and> g_started (shared c') = g_started (shared c)) \<or>
    (pcs c t = Wait_unlock \<and> pcs c' t = Lock_started \<and>
       g_started_mutex (shared c') = None \<and> g_started (shared c') = g_started (shared c)) \<or>
    (pcs c t = Init_mutex \<and> pcs c' t = Lock_started \<and>
       g_started_mutex (shared c') = None \<and> g_started (shared c') = g_started (shared c)) \<or>
    (pcs c t = Lock_started \<and> pcs c' t = Set_main_thread \<and> g_started_mutex (shared c) = None \<and>
       g_started_mutex (shared c') = Some t \<and> g_started (shared c') = g_started (shared c)) \<or>
    (pcs c t = Set_main_thread \<and> pcs c' t = Set_started \<and>
       g_started_mutex (shared c') = g_started_mutex (shared c) \<and> g_started (shared c') = g_started (shared c)) \<or>
    (pcs c t = Set_started \<and> pcs c' t = Session \<and>
       g_started_mutex (shared c') = g_started_mutex (shared c) \<and> g_started (shared c')) \<or>
    (pcs c t = Session \<and> pcs c' t = Clear_started \<and>
       g_started_mutex (shared c') = g_started_mutex (shared c) \<and> g_started (shared c') = g_started (shared c)) \<or>
    (pcs c t = Clear_started \<and> pcs c' t = Clear_restarted \<and>
       g_started_mutex (shared c') = g_started_mutex (shared c) \<and> \<not> g_started (shared c')) \<or>
    (pcs c t = Clear_restarted \<and> pcs c' t = Unlock_started \<and>
       g_started_mutex (shared c') = g_started_mutex (shared c) \<and> g_started (shared c') = g_started (shared c)) \<or>
    (pcs c t = Unlock_started \<and> pcs c' t = Returned \<and>
       g_started_mutex (shared c') = None \<and> g_started (shared c') = g_started (shared c))"
  using assms
  by (cases "pcs c t") (auto simp: thread_step_def split: option.splits)


lemma saw_inv_thread:
  assumes inv: "saw_inv c" and step: "thread_step t c = Some c'"
  shows "saw_inv c'"
proof -
  note self = thread_step_self [OF step]
  have a: "(saw_started c' u = None) = (pcs c' u = At_entry)" for u
  proof (cases "u = t")
    case True
    have "(saw_started c t = None) = (pcs c t = At_entry)"
      using inv by (simp add: saw_inv_def)
    with self thread_step_saw [OF step, of t] True show ?thesis
      by auto
  next
    case False
    have "(saw_started c u = None) = (pcs c u = At_entry)"
      using inv by (simp add: saw_inv_def)
    with False thread_step_saw [OF step, of u] thread_step_pcs_other [OF step False]
    show ?thesis by simp
  qed
  have b: "saw_started c' u = Some False" if "pcs c' u = Init_mutex" for u
  proof (cases "u = t")
    case True
    with self that thread_step_saw [OF step, of t] show ?thesis
      by auto
  next
    case False
    have "pcs c u = Init_mutex \<longrightarrow> saw_started c u = Some False"
      using inv by (simp add: saw_inv_def)
    with False that thread_step_saw [OF step, of u] thread_step_pcs_other [OF step False]
    show ?thesis by simp
  qed
  have c: "\<exists>u. pcs c' u = Session \<or> pcs c' u = Clear_started" if g: "g_started (shared c')"
  proof (cases "pcs c t = Set_started \<or> pcs c t = Session")
    case True
    with self have "pcs c' t = Session \<or> pcs c' t = Clear_started"
      by auto
    then show ?thesis by blast
  next
    case False
    with self g have "g_started (shared c)" and n: "pcs c t \<noteq> Clear_started"
      by auto
    then obtain u where u: "pcs c u = Session \<or> pcs c u = Clear_started"
      using inv by (auto simp: saw_inv_def)
    with False n have "u \<noteq> t" by auto
    from thread_step_pcs_other [OF step this] u show ?thesis by auto
  qed
  from a b c show ?thesis
    by (simp add: saw_inv_def)
qed

lemma only_first_fresh_older:
  assumes inv: "saw_inv c" and step: "thread_step t c = Some c'"
    and h: "only_first_fresh first c'"
  shows "only_first_fresh first c"
proof -
  have "saw_started c u \<noteq> Some False" if "u \<noteq> first" for u
  proof
    assume f: "saw_started c u = Some False"
    have "(saw_started c u = None) = (pcs c u = At_entry)"
      using inv by (simp add: saw_inv_def)
    with f have "pcs c u \<noteq> At_entry" by simp
    with f thread_step_saw [OF step, of u] have "saw_started c' u = Some False"
      by auto
    with h that show False
      by (simp add: only_first_fresh_def)
  qed
  then show ?thesis
    by (simp add: only_first_fresh_def)
qed

lemma owner_inv_thread:
  assumes sinv: "saw_inv c" and oinv: "owner_inv first c" and h: "only_first_fresh first c"
    and step: "thread_step t c = Some c'"
  shows "owner_inv first c'"
proof -
  note self = thread_step_self [OF step]
  have j1: "in_gate (pcs c u) \<Longrightarrow> g_started_mutex (shared c) = Some u" for u
    using oinv by (simp add: owner_inv_def)
  have j2: "(saw_started c u = None) = (pcs c u = At_entry)" for u
    using sinv by (simp add: saw_inv_def)
  have j3: "pcs c u = Init_mutex \<Longrightarrow> saw_started c u = Some False" for u
    using sinv by (simp add: saw_inv_def)
  have j4: "saw_started c u = Some True \<Longrightarrow> pcs c first \<noteq> At_entry \<and> pcs c first \<noteq> Init_mutex" for u
    using oinv by (auto simp: owner_inv_def)
  have j5: "g_started (shared c) \<Longrightarrow> pcs c first \<noteq> At_entry \<and> pcs c first \<noteq> Init_mutex"
    using oinv by (simp add: owner_inv_def)
  have hh: "u \<noteq> first \<Longrightarrow> saw_started c u \<noteq> Some False" for u
    using h by (simp add: only_first_fresh_def)
  have seen: "saw_started c u = Some True" if "u \<noteq> first" and "pcs c u \<noteq> At_entry" for u
  proof -
    from that j2 [of u] hh [of u] obtain b where "saw_started c u = Some b" and "b \<noteq> False"
      by (cases "saw_started c u") auto
    then show ?thesis by simp
  qed
  have stays: "pcs c' first \<noteq> At_entry \<and> pcs c' first \<noteq> Init_mutex"
    if "pcs c first \<noteq> At_entry \<and> pcs c first \<noteq> Init_mutex"
  proof (cases "first = t")
    case True
    with self that show ?thesis by auto
  next
    case False
    from thread_step_pcs_other [OF step False] that show ?thesis by simp
  qed
  have a: "g_started_mutex (shared c') = Some u" if g: "in_gate (pcs c' u)" for u
  proof (cases "u = t")
    case True
    with self g j1 [of t] show ?thesis
      by auto
  next
    case False
    from thread_step_pcs_other [OF step False] g have gu: "in_gate (pcs c u)"
      by simp
    then have m: "g_started_mutex (shared c) = Some u"
      by (rule j1)
    have "pcs c t \<noteq> Init_mutex"
    proof
      assume i: "pcs c t = Init_mutex"
      then have "saw_started c t = Some False" by (rule j3)
      with hh [of t] have t: "t = first" by auto
      from gu have "pcs c u \<noteq> At_entry" by auto
      with False t have "saw_started c u = Some True"
        by (intro seen) auto
      from j4 [OF this] i t show False by simp
    qed
    moreover have "pcs c t \<noteq> Wait_unlock" and "pcs c t \<noteq> Unlock_started"
      using j1 [of t] m False by auto
    ultimately show ?thesis
      using self m by auto
  qed
  have b: "pcs c' first \<noteq> At_entry \<and> pcs c' first \<noteq> Init_mutex"
    if s: "saw_started c' u = Some True" for u
  proof (cases "saw_started c u = Some True")
    case True
    from stays [OF j4 [OF True]] show ?thesis .
  next
    case False
    with s thread_step_saw [OF step, of u] have "g_started (shared c)"
      by (auto split: if_splits)
    from stays [OF j5 [OF this]] show ?thesis .
  qed
  have c: "pcs c' first \<noteq> At_entry \<and> pcs c' first \<noteq> Init_mutex" if g: "g_started (shared c')"
  proof (cases "g_started (shared c)")
    case True
    from stays [OF j5 [OF True]] show ?thesis .
  next
    case False
    with self g have p: "pcs c t = Set_started" and p': "pcs c' t = Session"
      by auto
    show ?thesis
    proof (cases "t = first")
      case True
      with p' show ?thesis by simp
    next
      case False
      with p have "saw_started c t = Some True"
        by (intro seen) auto
      from stays [OF j4 [OF this]] show ?thesis .
    qed
  qed
  from a b c show ?thesis
    unfolding owner_inv_def by blast
qed

lemma reachable_inv:
  "reachable c \<Longrightarrow> saw_inv c \<and> (only_first_fresh first c \<longrightarrow> owner_inv first c)"
proof (induction rule: reachable.induct)
  case (start g)
  then show ?case
    by (simp add: saw_inv_def owner_inv_def)
next
  case (thread c t c')
  then have s: "saw_inv c" and o: "only_first_fresh first c \<longrightarrow> owner_inv first c"
    by simp_all
  have s': "saw_inv c'"
    using s thread.hyps(2) by (rule saw_inv_thread)
  moreover have "owner_inv first c'" if h: "only_first_fresh first c'"
  proof -
    have h0: "only_first_fresh first c"
      using s thread.hyps(2) h by (rule only_first_fresh_older)
    with o have "owner_inv first c" by simp
    from s this h0 thread.hyps(2) show ?thesis
      by (rule owner_inv_thread)
  qed
  ultimately show ?case by simp
next
  case (other c g)
  then show ?case
    by (simp add: saw_inv_def owner_inv_def only_first_fresh_def)
qed

lemma reachable_system_start: "reachable system_start"
  unfolding system_start_def
  by (rule reachable.start) (simp_all add: process_start_def)

lemma reachable_run_schedule:
  "reachable c \<Longrightarrow> run_schedule ts c = Some c' \<Longrightarrow> reachable c'"
proof (induction ts arbitrary: c)
  case Nil
  then show ?case by simp
next
  case (Cons t ts)
  then obtain c1 where s: "thread_step t c = Some c1" and r: "run_schedule ts c1 = Some c'"
    by (auto split: option.splits)
  from Cons.prems(1) s have "reachable c1"
    by (rule reachable.thread)
  from Cons.IH [OF this r] show ?case .
qed

text \<open>
  What the gate of lines 293 to 305 and 377 to 379 gives.  In every execution in which
  only one invocation has found \<^verbatim>\<open>g_started\<close> cleared, a thread between its lock and
  its unlock owns \<^verbatim>\<open>g_started_mutex\<close>, so at most one thread is there; while
  \<^verbatim>\<open>g_started\<close> is set, some thread is in its session or about to clear the flag; and
  a thread that waits at line 296 has no step while another thread is between its lock
  and its unlock.
\<close>

theorem android_main_gate_holds:
  assumes "reachable c" and "only_first_fresh first c"
  shows "(\<forall>u. in_gate (pcs c u) \<longrightarrow> g_started_mutex (shared c) = Some u) \<and>
         (\<forall>t u. in_gate (pcs c t) \<longrightarrow> in_gate (pcs c u) \<longrightarrow> t = u) \<and>
         (g_started (shared c) \<longrightarrow> (\<exists>u. pcs c u = Session \<or> pcs c u = Clear_started)) \<and>
         (\<forall>t u. pcs c t = Wait_lock \<longrightarrow> in_gate (pcs c u) \<longrightarrow> thread_step t c = None)"
proof -
  from reachable_inv [OF assms(1), of first] assms(2)
  have s: "saw_inv c" and o: "owner_inv first c"
    by simp_all
  have a: "in_gate (pcs c u) \<Longrightarrow> g_started_mutex (shared c) = Some u" for u
    using o by (simp add: owner_inv_def)
  have b: "t = u" if "in_gate (pcs c t)" and "in_gate (pcs c u)" for t u
    using a [OF that(1)] a [OF that(2)] by simp
  have c: "g_started (shared c) \<longrightarrow> (\<exists>u. pcs c u = Session \<or> pcs c u = Clear_started)"
    using s by (simp add: saw_inv_def)
  have d: "thread_step t c = None" if "pcs c t = Wait_lock" and "in_gate (pcs c u)" for t u
    using that(1) a [OF that(2)] by (simp add: thread_step_def)
  from a b c d show ?thesis by blast
qed

theorem android_main_gate_holds_witness:
  "\<exists>c. run_schedule [1, 1, 1, 1, 1, 2, 2] system_start = Some c \<and> reachable c \<and>
        only_first_fresh 1 c \<and> pcs c 1 = Session \<and> pcs c 2 = Wait_lock \<and>
        g_restarted (shared c) \<and> g_started_mutex (shared c) = Some 1 \<and> thread_step 2 c = None"
proof -
  obtain c where r: "run_schedule [1, 1, 1, 1, 1, 2, 2] system_start = Some c"
    and f: "only_first_fresh 1 c" and p: "pcs c 1 = Session" "pcs c 2 = Wait_lock"
      "g_restarted (shared c)"
    by (simp add: system_start_def thread_step_def process_start_def only_first_fresh_def)
  have rc: "reachable c"
    using reachable_system_start r by (rule reachable_run_schedule)
  note gate = android_main_gate_holds [OF rc f]
  have g: "in_gate (pcs c 1)"
    using p(1) by simp
  from gate g have m: "g_started_mutex (shared c) = Some 1"
    by blast
  from gate g p(2) have n: "thread_step 2 c = None"
    by blast
  from r rc f p m n show ?thesis by blast
qed

text \<open>
  C1.  At most one instance at a time holds of the executions above, not of every
  interleaving of the invocations.  Thread 1 runs
  its session; thread 2 enters, finds \<^verbatim>\<open>g_started\<close> set, sets \<^verbatim>\<open>g_restarted\<close> and
  waits at line 296; thread 1 leaves its session and clears \<^verbatim>\<open>g_started\<close> (line 377).
  Thread 3 enters now, finds \<^verbatim>\<open>g_started\<close> cleared, assigns the initialiser to the
  mutex that thread 1 still holds (line 299) and locks it (line 301): it is past its lock
  while thread 1 has not unlocked.  Thread 1 then unlocks (line 379), which frees the
  mutex under thread 3, and thread 2 passes lines 296 to 305.  Threads 2 and 3 are in
  their sessions at the same time.  The last part is the shorter schedule of two
  threads that both read \<^verbatim>\<open>g_started\<close> before either has set it.
\<close>

theorem android_main_instances_overlap:
  "(\<exists>c. run_schedule [1, 1, 1, 1, 1, 2, 2, 1, 1, 3, 3, 3] system_start = Some c \<and>
        reachable c \<and> saw_started c 2 = Some True \<and> pcs c 1 = Clear_restarted \<and>
        pcs c 2 = Wait_lock \<and> pcs c 3 = Set_main_thread \<and>
        g_started_mutex (shared c) = Some 3) \<and>
   (\<exists>c. run_schedule [1, 1, 1, 1, 1, 2, 2, 1, 1, 3, 3, 3, 1, 1, 3, 3, 2, 2, 2, 2, 2]
          system_start = Some c \<and>
        reachable c \<and> saw_started c 2 = Some True \<and> pcs c 1 = Returned \<and>
        pcs c 2 = Session \<and> pcs c 3 = Session) \<and>
   (\<exists>c. run_schedule [1, 2, 1, 1, 1, 1, 2, 2, 2, 2] system_start = Some c \<and>
        reachable c \<and> pcs c 1 = Session \<and> pcs c 2 = Session)"
proof -
  obtain c1 where r1: "run_schedule [1, 1, 1, 1, 1, 2, 2, 1, 1, 3, 3, 3] system_start = Some c1"
    and p1: "saw_started c1 2 = Some True" "pcs c1 1 = Clear_restarted" "pcs c1 2 = Wait_lock"
      "pcs c1 3 = Set_main_thread" "g_started_mutex (shared c1) = Some 3"
    by (simp add: system_start_def thread_step_def process_start_def)
  obtain c2 where
    r2: "run_schedule [1, 1, 1, 1, 1, 2, 2, 1, 1, 3, 3, 3, 1, 1, 3, 3, 2, 2, 2, 2, 2]
           system_start = Some c2"
    and p2: "saw_started c2 2 = Some True" "pcs c2 1 = Returned" "pcs c2 2 = Session"
      "pcs c2 3 = Session"
    by (simp add: system_start_def thread_step_def process_start_def)
  obtain c3 where r3: "run_schedule [1, 2, 1, 1, 1, 1, 2, 2, 2, 2] system_start = Some c3"
    and p3: "pcs c3 1 = Session" "pcs c3 2 = Session"
    by (simp add: system_start_def thread_step_def process_start_def)
  have "reachable c1" and "reachable c2" and "reachable c3"
    using reachable_system_start r1 r2 r3 by (blast intro: reachable_run_schedule)+
  with r1 p1 r2 p2 r3 p3 show ?thesis by blast
qed

end
